theory Spec2Isabelle
  imports
    Complex_Main
    "HOL-Library.Multiset"
    "HOL-Library.Product_Lexorder"
    "HOL-Library.Char_ord"
    "HOL-Library.List_Lexorder"
begin

section \<open>Data model of \<^verbatim>\<open>frontend/src/data/api.ts\<close>\<close>

text \<open>
  JavaScript numbers that hold counts (beds, victims, ranks) are modelled as \<open>int\<close>,
  coordinates, distances and fractions as \<open>real\<close>; a nullable value is an \<open>option\<close>.
  A string is a list of 8-bit characters. Fields that two interfaces share get a prefix
  in all but one of them (\<open>p_\<close> for \<open>Patient\<close>, \<open>hospital_\<close>, \<open>case_\<close>, \<open>group_\<close>).
\<close>

datatype SeverityLevel = critical | severe | moderate | mild

datatype AmbulanceStatus = dispatched | en_route | on_scene | pending

record Patient =
  p_patientAge :: int
  p_signsAndSymptoms :: "string list"
  p_severity :: SeverityLevel
  p_levelOfConsciousness :: string
  p_breathingStatus :: string
  p_traumaHistory :: string
  p_knownChronicDiseases :: "string list"
  p_painScore :: int

record EmergencyCase =
  case_id :: string
  timeOfReport :: string
  latitude :: real
  longitude :: real
  placeName :: string
  callerPhone :: string
  victimName :: "string option"
  patients :: "Patient list"
  severity :: SeverityLevel
  numberOfPatients :: int
  patientAge :: int
  signsAndSymptoms :: "string list"
  levelOfConsciousness :: string
  breathingStatus :: string
  traumaHistory :: string
  knownChronicDiseases :: "string list"
  painScore :: int
  ambulanceStatus :: AmbulanceStatus
  assignedHospital :: "string option"

record BedPool =
  available :: int
  total :: int

record Hospital =
  hospital_id :: string
  name :: string
  hospital_latitude :: real
  hospital_longitude :: real
  emergencyBeds :: BedPool
  icuBeds :: BedPool
  pediatricsBeds :: BedPool
  labAvailable :: int
  pharmacyAvailable :: int
  traumaUnit :: bool
  cardiology :: bool
  pediatrics :: bool
  neurosurgery :: bool
  radiology :: bool
  laboratory :: bool
  pharmacy :: bool
  burnUnit :: bool
  orthopedics :: bool
  ophthalmology :: bool

text \<open>The string keys of \<open>HospitalServiceKey\<close>; \<open>offers h k\<close> is the property read \<open>h[k]\<close>.\<close>

datatype HospitalServiceKey =
    TraumaUnit | Cardiology | Pediatrics | Neurosurgery | Radiology
  | Laboratory | Pharmacy | BurnUnit | Orthopedics | Ophthalmology

fun offers :: "Hospital \<Rightarrow> HospitalServiceKey \<Rightarrow> bool" where
  "offers h TraumaUnit = traumaUnit h"
| "offers h Cardiology = cardiology h"
| "offers h Pediatrics = pediatrics h"
| "offers h Neurosurgery = neurosurgery h"
| "offers h Radiology = radiology h"
| "offers h Laboratory = laboratory h"
| "offers h Pharmacy = pharmacy h"
| "offers h BurnUnit = burnUnit h"
| "offers h Orthopedics = orthopedics h"
| "offers h Ophthalmology = ophthalmology h"

section \<open>Library routines the code calls\<close>

text \<open>
  \<open>Array.prototype.sort(cmp)\<close> is stable (ECMAScript 2019): with a consistent comparator
  the result is the one sorted permutation that keeps equal elements in input order.
  The model is the stable insertion sort driven by the sign of the comparator.
\<close>

fun insert_cmp :: "('a \<Rightarrow> 'a \<Rightarrow> 'b::{zero,ord}) \<Rightarrow> 'a \<Rightarrow> 'a list \<Rightarrow> 'a list" where
  "insert_cmp cmp x [] = [x]"
| "insert_cmp cmp x (y # ys) =
     (if cmp x y \<le> 0 then x # y # ys else y # insert_cmp cmp x ys)"

definition Array_sort :: "('a \<Rightarrow> 'a \<Rightarrow> 'b::{zero,ord}) \<Rightarrow> 'a list \<Rightarrow> 'a list" where
  "Array_sort cmp xs = foldr (insert_cmp cmp) xs []"

text \<open>\<open>Math.atan2(y, x)\<close> over the reals.\<close>

definition atan2 :: "real \<Rightarrow> real \<Rightarrow> real" where
  "atan2 y x =
     (if 0 < x then arctan (y / x)
      else if x < 0 \<and> 0 \<le> y then arctan (y / x) + pi
      else if x < 0 \<and> y < 0 then arctan (y / x) - pi
      else if 0 < y then pi / 2
      else if y < 0 then - (pi / 2)
      else 0)"

text \<open>\<open>Math.min(...xs)\<close>: the least element, \<open>None\<close> standing for \<open>Infinity\<close> on no arguments.\<close>

fun Math_min :: "int list \<Rightarrow> int option" where
  "Math_min [] = None"
| "Math_min (x # xs) = (case Math_min xs of None \<Rightarrow> Some x | Some m \<Rightarrow> Some (min x m))"

text \<open>\<open>Math.round\<close> rounds half up.\<close>

definition Math_round :: "real \<Rightarrow> int" where
  "Math_round x = \<lfloor>x + 1 / 2\<rfloor>"

text \<open>An insertion-ordered \<open>Map\<close>: \<open>set\<close> keeps the place of a key that is present.\<close>

fun Map_set :: "'k \<Rightarrow> 'v \<Rightarrow> ('k \<times> 'v) list \<Rightarrow> ('k \<times> 'v) list" where
  "Map_set k v [] = [(k, v)]"
| "Map_set k v ((k', v') # m) =
     (if k' = k then (k, v) # m else (k', v') # Map_set k v m)"

text \<open>An insertion-ordered \<open>Set\<close>, as the list of its elements: \<open>add\<close> appends a new one.\<close>

definition Set_add :: "'a \<Rightarrow> 'a list \<Rightarrow> 'a list" where
  "Set_add k out = (if k \<in> set out then out else out @ [k])"

section \<open>\<^verbatim>\<open>lib/geo.ts\<close>\<close>

definition haversineKm :: "real \<Rightarrow> real \<Rightarrow> real \<Rightarrow> real \<Rightarrow> real" where
  "haversineKm lat1 lng1 lat2 lng2 =
     (let R = 6371;
          dLat = ((lat2 - lat1) * pi) / 180;
          dLng = ((lng2 - lng1) * pi) / 180;
          a = sin (dLat / 2) * sin (dLat / 2) +
              cos ((lat1 * pi) / 180) * cos ((lat2 * pi) / 180) *
              sin (dLng / 2) * sin (dLng / 2);
          c = 2 * atan2 (sqrt a) (sqrt (1 - a))
      in R * c)"

section \<open>Occupancy\<close>

definition LAB_PHARMACY_MAX :: real where
  "LAB_PHARMACY_MAX = 10"

definition poolUsed :: "BedPool \<Rightarrow> real" where
  "poolUsed p =
     (if total p > 0 then (real_of_int (total p) - real_of_int (available p)) / real_of_int (total p)
      else 0)"

definition labUsed :: "Hospital \<Rightarrow> real" where
  "labUsed h = min 1 (1 - real_of_int (labAvailable h) / LAB_PHARMACY_MAX)"

definition pharmacyUsed :: "Hospital \<Rightarrow> real" where
  "pharmacyUsed h = min 1 (1 - real_of_int (pharmacyAvailable h) / LAB_PHARMACY_MAX)"

definition computeOccupancyPercentage :: "Hospital \<Rightarrow> int" where
  "computeOccupancyPercentage h =
     (let emergencyUsed = poolUsed (emergencyBeds h);
          icuUsed = poolUsed (icuBeds h);
          pediatricsUsed = poolUsed (pediatricsBeds h);
          weighted = emergencyUsed * 0.35 + icuUsed * 0.25 + pediatricsUsed * 0.2 +
                     labUsed h * 0.1 + pharmacyUsed h * 0.1
      in Math_round (min 100 (max 0 (weighted * 100))))"

section \<open>Effective service availability\<close>

definition SERVICE_KEYS_ORDER :: "HospitalServiceKey list" where
  "SERVICE_KEYS_ORDER =
     [TraumaUnit, Cardiology, Pediatrics, Neurosurgery, Radiology,
      Laboratory, Pharmacy, BurnUnit, Orthopedics, Ophthalmology]"

text \<open>
  The hospital name compared in \<open>isIbnTofail\<close>: its second letter, an o with a
  circumflex, is written as the two bytes of its UTF-8 form.
\<close>

definition IbnTofailName :: string where
  "IbnTofailName = CHR ''H'' # CHR 0xC3 # CHR 0xB4 # ''pital Ibn Tofail''"

definition isIbnTofail :: "Hospital \<Rightarrow> bool" where
  "isIbnTofail h = (hospital_id h = ''h2'' \<or> name h = IbnTofailName)"

text \<open>
  The \<open>for\<close> loop over \<open>SERVICE_KEYS_ORDER\<close>: the state is the counter
  \<open>overloadedSoFar\<close> and the record \<open>result\<close> under construction.
\<close>

fun availabilityLoop ::
  "Hospital \<Rightarrow> int \<Rightarrow> HospitalServiceKey list \<Rightarrow> int \<Rightarrow>
   (HospitalServiceKey \<rightharpoonup> bool) \<Rightarrow> (HospitalServiceKey \<rightharpoonup> bool)" where
  "availabilityLoop h numOverloaded [] overloadedSoFar result = result"
| "availabilityLoop h numOverloaded (k # ks) overloadedSoFar result =
     (if \<not> offers h k then
        availabilityLoop h numOverloaded ks overloadedSoFar (result(k \<mapsto> False))
      else
        (let normallyAvailable = (overloadedSoFar \<ge> numOverloaded)
         in availabilityLoop h numOverloaded ks (overloadedSoFar + 1)
              (result(k \<mapsto>
                 (if isIbnTofail h \<and> (k = TraumaUnit \<or> k = Cardiology) then True
                  else normallyAvailable)))))"

definition getEffectiveServiceAvailability ::
  "Hospital \<Rightarrow> real \<Rightarrow> (HospitalServiceKey \<rightharpoonup> bool)" where
  "getEffectiveServiceAvailability h occupancyPct =
     (let offeredCount = int (length (filter (offers h) SERVICE_KEYS_ORDER));
          numOverloaded = min offeredCount \<lfloor>(real_of_int offeredCount * occupancyPct) / 100\<rfloor>
      in availabilityLoop h numOverloaded SERVICE_KEYS_ORDER 0 Map.empty)"

section \<open>Required services of a case\<close>

text \<open>
  The regular expressions of \<open>getRequiredServicesForCase\<close> all have the shape
  \<^verbatim>\<open>/\b(alt|...|alt)\b/\<close>, an alternative being literal text with \<^verbatim>\<open>\s+\<close> in places.
  \<open>regexTest\<close> is \<open>RegExp.prototype.test\<close> for this shape on ASCII text: a match
  may start at any position and ends where an alternative ends, with a word boundary at
  both ends. A position is the character before it (if any) and the text from it on.
\<close>

datatype piece = Lit string | Spaces

definition isWordChar :: "char \<Rightarrow> bool" where
  "isWordChar c =
     (c \<in> set ''abcdefghijklmnopqrstuvwxyzABCDEFGHIJKLMNOPQRSTUVWXYZ0123456789_'')"

definition isSpaceChar :: "char \<Rightarrow> bool" where
  "isSpaceChar c = (c \<in> {CHR '' '', CHR 0x09, CHR 0x0A, CHR 0x0B, CHR 0x0C, CHR 0x0D})"

fun isBoundary :: "char option \<Rightarrow> string \<Rightarrow> bool" where
  "isBoundary prev rest =
     ((case prev of None \<Rightarrow> False | Some c \<Rightarrow> isWordChar c) \<noteq>
      (case rest of [] \<Rightarrow> False | c # _ \<Rightarrow> isWordChar c))"

fun matchLit :: "string \<Rightarrow> char option \<Rightarrow> string \<Rightarrow> (char option \<times> string) list" where
  "matchLit [] prev rest = [(prev, rest)]"
| "matchLit (p # ps) prev [] = []"
| "matchLit (p # ps) prev (c # cs) = (if p = c then matchLit ps (Some c) cs else [])"

fun matchSpaces :: "char option \<Rightarrow> string \<Rightarrow> (char option \<times> string) list" where
  "matchSpaces prev [] = []"
| "matchSpaces prev (c # cs) =
     (if isSpaceChar c then (Some c, cs) # matchSpaces (Some c) cs else [])"

fun matchPieces :: "piece list \<Rightarrow> char option \<Rightarrow> string \<Rightarrow> (char option \<times> string) list" where
  "matchPieces [] prev rest = [(prev, rest)]"
| "matchPieces (Lit w # ps) prev rest =
     concat (map (\<lambda>(p', r'). matchPieces ps p' r') (matchLit w prev rest))"
| "matchPieces (Spaces # ps) prev rest =
     concat (map (\<lambda>(p', r'). matchPieces ps p' r') (matchSpaces prev rest))"

definition matchHere :: "piece list list \<Rightarrow> char option \<Rightarrow> string \<Rightarrow> bool" where
  "matchHere alts prev rest =
     (isBoundary prev rest \<and>
      list_ex (\<lambda>alt. list_ex (\<lambda>(p', r'). isBoundary p' r') (matchPieces alt prev rest)) alts)"

fun regexFrom :: "piece list list \<Rightarrow> char option \<Rightarrow> string \<Rightarrow> bool" where
  "regexFrom alts prev [] = matchHere alts prev []"
| "regexFrom alts prev (c # cs) =
     (matchHere alts prev (c # cs) \<or> regexFrom alts (Some c) cs)"

definition regexTest :: "piece list list \<Rightarrow> string \<Rightarrow> bool" where
  "regexTest alts text = regexFrom alts None text"

text \<open>\<open>toLowerCase\<close> on ASCII letters, and \<open>Array.prototype.join\<close>.\<close>

definition lowerChar :: "char \<Rightarrow> char" where
  "lowerChar c =
     (case map_of (zip ''ABCDEFGHIJKLMNOPQRSTUVWXYZ'' ''abcdefghijklmnopqrstuvwxyz'') c of
        None \<Rightarrow> c | Some d \<Rightarrow> d)"

definition toLowerCase :: "string \<Rightarrow> string" where
  "toLowerCase s = map lowerChar s"

fun join :: "string \<Rightarrow> string list \<Rightarrow> string" where
  "join sep [] = []"
| "join sep [x] = x"
| "join sep (x # y # ys) = x @ sep @ join sep (y # ys)"

definition caseText :: "EmergencyCase \<Rightarrow> string" where
  "caseText c =
     toLowerCase (join '' ''
       (signsAndSymptoms c @ [traumaHistory c] @ knownChronicDiseases c @
        concat (map (\<lambda>p. p_signsAndSymptoms p @ [p_traumaHistory p]) (patients c))))"

definition getRequiredServicesForCase :: "EmergencyCase \<Rightarrow> HospitalServiceKey list" where
  "getRequiredServicesForCase c =
     (let text = caseText c;
          out = [];
          out = (if regexTest [[Lit ''cardiac''], [Lit ''heart''], [Lit ''pulse''],
                               [Lit ''arrest''], [Lit ''chest'']] text
                 then Set_add Cardiology out else out);
          out = (if regexTest [[Lit ''bleeding''], [Lit ''trauma''], [Lit ''unconscious''],
                               [Lit ''severe'', Spaces, Lit ''injury''], [Lit ''hemorrhage'']] text
                 then Set_add TraumaUnit out else out);
          out = (if regexTest [[Lit ''fracture''], [Lit ''bone''], [Lit ''ortho''],
                               [Lit ''broken'']] text
                 then Set_add Orthopedics out else out);
          out = (if regexTest [[Lit ''child''], [Lit ''pediatric''], [Lit ''baby''],
                               [Lit ''infant'']] text
                 then Set_add Pediatrics out else out);
          out = (if regexTest [[Lit ''brain''], [Lit ''neuro''], [Lit ''stroke''],
                               [Lit ''head'', Spaces, Lit ''injury''], [Lit ''coma'']] text
                 then Set_add Neurosurgery out else out);
          out = (if regexTest [[Lit ''burn'']] text then Set_add BurnUnit out else out);
          out = (if regexTest [[Lit ''eye''], [Lit ''ophthal''], [Lit ''vision'']] text
                 then Set_add Ophthalmology out else out)
      in out)"

section \<open>Choosing a hospital\<close>

definition hasServices :: "HospitalServiceKey list \<Rightarrow> Hospital \<Rightarrow> bool" where
  "hasServices requiredServices h = list_all (\<lambda>key. offers h key = True) requiredServices"

definition sortByDist :: "real \<Rightarrow> real \<Rightarrow> Hospital list \<Rightarrow> Hospital list" where
  "sortByDist lat lng hospitals =
     Array_sort (\<lambda>a b. haversineKm lat lng (hospital_latitude a) (hospital_longitude a) -
                        haversineKm lat lng (hospital_latitude b) (hospital_longitude b))
       hospitals"

text \<open>\<open>usedCapacity.get(h.name) ?? 0\<close>, and the local \<open>available\<close> of the first two loops.\<close>

definition usedOf :: "(string \<rightharpoonup> int) \<Rightarrow> string \<Rightarrow> int" where
  "usedOf usedCapacity n = (case usedCapacity n of None \<Rightarrow> 0 | Some u \<Rightarrow> u)"

definition availableAfterUse :: "(string \<rightharpoonup> int) \<Rightarrow> Hospital \<Rightarrow> int" where
  "availableAfterUse usedCapacity h =
     (let used = usedOf usedCapacity (name h)
      in max 0 (available (emergencyBeds h) - used))"

fun capacityAndServicesLoop ::
  "(string \<rightharpoonup> int) \<Rightarrow> int \<Rightarrow> HospitalServiceKey list \<Rightarrow> Hospital list \<Rightarrow> Hospital option" where
  "capacityAndServicesLoop usedCapacity requiredBeds requiredServices [] = None"
| "capacityAndServicesLoop usedCapacity requiredBeds requiredServices (h # byDist) =
     (if availableAfterUse usedCapacity h \<ge> requiredBeds \<and> hasServices requiredServices h
      then Some h
      else capacityAndServicesLoop usedCapacity requiredBeds requiredServices byDist)"

fun capacityLoop :: "(string \<rightharpoonup> int) \<Rightarrow> int \<Rightarrow> Hospital list \<Rightarrow> Hospital option" where
  "capacityLoop usedCapacity requiredBeds [] = None"
| "capacityLoop usedCapacity requiredBeds (h # byDist) =
     (if availableAfterUse usedCapacity h \<ge> requiredBeds then Some h
      else capacityLoop usedCapacity requiredBeds byDist)"

fun servicesLoop :: "HospitalServiceKey list \<Rightarrow> Hospital list \<Rightarrow> Hospital option" where
  "servicesLoop requiredServices [] = None"
| "servicesLoop requiredServices (h # byDist) =
     (if hasServices requiredServices h then Some h
      else servicesLoop requiredServices byDist)"

definition findNearestHospitalWithCapacityAndServices ::
  "real \<Rightarrow> real \<Rightarrow> Hospital list \<Rightarrow> (string \<rightharpoonup> int) \<Rightarrow> int \<Rightarrow> HospitalServiceKey list \<Rightarrow>
   Hospital option" where
  "findNearestHospitalWithCapacityAndServices lat lng hospitals usedCapacity requiredBeds
     requiredServices =
     (let byDist = sortByDist lat lng hospitals
      in case capacityAndServicesLoop usedCapacity requiredBeds requiredServices byDist of
           Some h \<Rightarrow> Some h
         | None \<Rightarrow>
             (case capacityLoop usedCapacity requiredBeds byDist of
                Some h \<Rightarrow> Some h
              | None \<Rightarrow>
                  (case servicesLoop requiredServices byDist of
                     Some h \<Rightarrow> Some h
                   | None \<Rightarrow> (case byDist of [] \<Rightarrow> None | h # _ \<Rightarrow> Some h))))"

fun backupLoop ::
  "string option \<Rightarrow> int \<Rightarrow> HospitalServiceKey list \<Rightarrow> Hospital list \<Rightarrow> Hospital option" where
  "backupLoop excludeHospitalName requiredBeds requiredServices [] = None"
| "backupLoop excludeHospitalName requiredBeds requiredServices (h # byDist) =
     (if Some (name h) = excludeHospitalName
      then backupLoop excludeHospitalName requiredBeds requiredServices byDist
      else if available (emergencyBeds h) \<ge> requiredBeds \<and> hasServices requiredServices h
      then Some h
      else backupLoop excludeHospitalName requiredBeds requiredServices byDist)"

definition findBackupHospital ::
  "real \<Rightarrow> real \<Rightarrow> Hospital list \<Rightarrow> string option \<Rightarrow> int \<Rightarrow> HospitalServiceKey list \<Rightarrow>
   Hospital option" where
  "findBackupHospital lat lng hospitals excludeHospitalName requiredBeds requiredServices =
     backupLoop excludeHospitalName requiredBeds requiredServices (sortByDist lat lng hospitals)"

section \<open>The assignment pass\<close>

record PlaceGroup =
  group_placeName :: string
  lat :: real
  lng :: real
  caseList :: "EmergencyCase list"
  totalVictims :: int
  requiredServices :: "HospitalServiceKey list"

definition severityOrder :: "SeverityLevel \<Rightarrow> int" where
  "severityOrder s = (case s of critical \<Rightarrow> 0 | severe \<Rightarrow> 1 | moderate \<Rightarrow> 2 | mild \<Rightarrow> 3)"

text \<open>The first loop: \<open>byPlace\<close> maps a place name to its cases, in order of arrival.\<close>

definition byPlaceAdd ::
  "EmergencyCase \<Rightarrow> (string \<times> EmergencyCase list) list \<Rightarrow> (string \<times> EmergencyCase list) list" where
  "byPlaceAdd c byPlace =
     (let list = (case map_of byPlace (placeName c) of None \<Rightarrow> [] | Some l \<Rightarrow> l)
      in Map_set (placeName c) (list @ [c]) byPlace)"

definition groupByPlace :: "EmergencyCase list \<Rightarrow> (string \<times> EmergencyCase list) list" where
  "groupByPlace cases = fold byPlaceAdd cases []"

text \<open>
  The body of the \<open>map\<close> that builds a place group. The two means divide by the length of
  the case list, which is never 0 for an entry of \<open>byPlace\<close>.
\<close>

definition makePlaceGroup :: "string \<times> EmergencyCase list \<Rightarrow> PlaceGroup" where
  "makePlaceGroup entry =
     (let placeName = fst entry;
          caseList = snd entry;
          lat = foldl (\<lambda>s c. s + latitude c) 0 caseList / real (length caseList);
          lng = foldl (\<lambda>s c. s + longitude c) 0 caseList / real (length caseList);
          totalVictims = foldl (\<lambda>s c. s + numberOfPatients c) 0 caseList;
          allServices = fold (\<lambda>c acc. fold Set_add (getRequiredServicesForCase c) acc) caseList [];
          requiredServices = allServices;
          sorted = Array_sort (\<lambda>a b. severityOrder (severity a) - severityOrder (severity b))
                     caseList
      in \<lparr> group_placeName = placeName, lat = lat, lng = lng, caseList = sorted,
           totalVictims = totalVictims, requiredServices = requiredServices \<rparr>)"

definition buildPlaceGroups :: "EmergencyCase list \<Rightarrow> PlaceGroup list" where
  "buildPlaceGroups cases = map makePlaceGroup (groupByPlace cases)"

text \<open>
  The comparator of \<open>placeGroups.sort\<close>. Only its sign is used: a difference with
  \<open>Infinity\<close> on one side is written as \<open>1\<close> or \<open>-1\<close>.
\<close>

definition comparePlaceGroups :: "PlaceGroup \<Rightarrow> PlaceGroup \<Rightarrow> int" where
  "comparePlaceGroups a b =
     (let worstA = Math_min (map (\<lambda>c. severityOrder (severity c)) (caseList a));
          worstB = Math_min (map (\<lambda>c. severityOrder (severity c)) (caseList b))
      in if worstA \<noteq> worstB then
           (case (worstA, worstB) of
              (Some x, Some y) \<Rightarrow> x - y
            | (None, _) \<Rightarrow> 1
            | (_, None) \<Rightarrow> - 1)
         else totalVictims b - totalVictims a)"

definition sortPlaceGroups :: "PlaceGroup list \<Rightarrow> PlaceGroup list" where
  "sortPlaceGroups placeGroups = Array_sort comparePlaceGroups placeGroups"

text \<open>The two maps the main loop fills: the capacity ledger and the place assignments.\<close>

record PassState =
  usedCapacity :: "string \<rightharpoonup> int"
  placeToHospital :: "string \<rightharpoonup> string"

definition initialPassState :: PassState where
  "initialPassState = \<lparr> usedCapacity = Map.empty, placeToHospital = Map.empty \<rparr>"

definition assignGroup :: "Hospital list \<Rightarrow> PlaceGroup \<Rightarrow> PassState \<Rightarrow> PassState" where
  "assignGroup hospitals g st =
     (case findNearestHospitalWithCapacityAndServices (lat g) (lng g) hospitals
             (usedCapacity st) (totalVictims g) (requiredServices g) of
        None \<Rightarrow> st
      | Some assigned \<Rightarrow>
          (let used = usedOf (usedCapacity st) (name assigned)
           in \<lparr> usedCapacity = (usedCapacity st)(name assigned \<mapsto> used + totalVictims g),
                placeToHospital = (placeToHospital st)(group_placeName g \<mapsto> name assigned) \<rparr>))"

fun assignLoop :: "Hospital list \<Rightarrow> PlaceGroup list \<Rightarrow> PassState \<Rightarrow> PassState" where
  "assignLoop hospitals [] st = st"
| "assignLoop hospitals (g # gs) st = assignLoop hospitals gs (assignGroup hospitals g st)"

definition runPass :: "EmergencyCase list \<Rightarrow> Hospital list \<Rightarrow> PassState" where
  "runPass cases hospitals =
     assignLoop hospitals (sortPlaceGroups (buildPlaceGroups cases)) initialPassState"

definition assignCasesToHospitals :: "EmergencyCase list \<Rightarrow> Hospital list \<Rightarrow> EmergencyCase list" where
  "assignCasesToHospitals cases hospitals =
     (if length hospitals = 0 then map (\<lambda>c. c\<lparr>assignedHospital := None\<rparr>) cases
      else
        (let st = runPass cases hospitals
         in map (\<lambda>c. c\<lparr>assignedHospital := placeToHospital st (placeName c)\<rparr>) cases))"

section \<open>Notions used in the statements\<close>

text \<open>
  A change to the pools that are not emergency beds: the ICU beds, the pediatric beds and
  the lab and pharmacy slots of a hospital are replaced by arbitrary values.
\<close>

definition setOtherPools ::
  "(Hospital \<Rightarrow> BedPool) \<Rightarrow> (Hospital \<Rightarrow> BedPool) \<Rightarrow> (Hospital \<Rightarrow> int) \<Rightarrow> (Hospital \<Rightarrow> int) \<Rightarrow>
   Hospital \<Rightarrow> Hospital" where
  "setOtherPools icu ped lab pharm h =
     h\<lparr>icuBeds := icu h, pediatricsBeds := ped h, labAvailable := lab h,
       pharmacyAvailable := pharm h\<rparr>"

text \<open>
  The two hospitals of the specification's example: hospital A is the nearer one, has 2
  free emergency beds and no cardiology; hospital B is farther, has 10 free beds and
  cardiology. Here A stands at the point with latitude and longitude 0, where the example
  cases are, and B at its antipode: there the haversine formula has closed values.
\<close>

definition exampleA :: Hospital where
  "exampleA =
     \<lparr> hospital_id = ''a'', name = ''A'', hospital_latitude = 0, hospital_longitude = 0,
       emergencyBeds = \<lparr> available = 2, total = 10 \<rparr>, icuBeds = \<lparr> available = 1, total = 2 \<rparr>,
       pediatricsBeds = \<lparr> available = 0, total = 0 \<rparr>, labAvailable = 4, pharmacyAvailable = 2,
       traumaUnit = True, cardiology = False, pediatrics = False, neurosurgery = False,
       radiology = True, laboratory = True, pharmacy = True, burnUnit = False,
       orthopedics = False, ophthalmology = False \<rparr>"

definition exampleB :: Hospital where
  "exampleB =
     \<lparr> hospital_id = ''b'', name = ''B'', hospital_latitude = 0, hospital_longitude = 180,
       emergencyBeds = \<lparr> available = 10, total = 20 \<rparr>, icuBeds = \<lparr> available = 3, total = 8 \<rparr>,
       pediatricsBeds = \<lparr> available = 4, total = 10 \<rparr>, labAvailable = 3, pharmacyAvailable = 2,
       traumaUnit = True, cardiology = True, pediatrics = True, neurosurgery = False,
       radiology = True, laboratory = True, pharmacy = True, burnUnit = False,
       orthopedics = True, ophthalmology = False \<rparr>"

text \<open>The entry \<open>h2\<close> of the exported table \<open>hospitals\<close>.\<close>

definition hospital_h2 :: Hospital where
  "hospital_h2 =
     \<lparr> hospital_id = ''h2'', name = IbnTofailName,
       hospital_latitude = 31.6280, hospital_longitude = - 7.9920,
       emergencyBeds = \<lparr> available = 8, total = 25 \<rparr>, icuBeds = \<lparr> available = 3, total = 8 \<rparr>,
       pediatricsBeds = \<lparr> available = 4, total = 10 \<rparr>, labAvailable = 3, pharmacyAvailable = 2,
       traumaUnit = True, cardiology = True, pediatrics = True, neurosurgery = False,
       radiology = True, laboratory = True, pharmacy = True, burnUnit = False,
       orthopedics = True, ophthalmology = False \<rparr>"

text \<open>Clamping to the interval from 0 to 1, as the specification words it.\<close>

definition clamp01 :: "real \<Rightarrow> real" where
  "clamp01 x = max 0 (min 1 x)"

text \<open>
  Example cases: two severe ones at one place, needing cardiology and orthopedics, and a
  critical one elsewhere that needs no service.
\<close>

definition exampleCase ::
  "string \<Rightarrow> string \<Rightarrow> string \<Rightarrow> SeverityLevel \<Rightarrow> int \<Rightarrow> string list \<Rightarrow> EmergencyCase" where
  "exampleCase cid time place sev victims symptoms =
     \<lparr> case_id = cid, timeOfReport = time, latitude = 0, longitude = 0, placeName = place,
       callerPhone = ''N/A'', victimName = None, patients = [], severity = sev,
       numberOfPatients = victims, patientAge = 34, signsAndSymptoms = symptoms,
       levelOfConsciousness = ''Alert'', breathingStatus = ''Normal'',
       traumaHistory = ''Unknown'', knownChronicDiseases = [], painScore = 5,
       ambulanceStatus = pending, assignedHospital = None \<rparr>"

definition caseLate :: EmergencyCase where
  "caseLate = exampleCase ''C-1'' ''2024-01-01T10:00:00Z'' ''Square'' severe 2 [''Chest pain'']"

definition caseEarly :: EmergencyCase where
  "caseEarly = exampleCase ''C-2'' ''2024-01-01T09:00:00Z'' ''Square'' severe 1 [''Fracture'']"

definition caseOther :: EmergencyCase where
  "caseOther = exampleCase ''C-3'' ''2024-01-01T09:30:00Z'' ''Station'' critical 1 []"

text \<open>
  The member order the specification words: ascending severity rank, and ascending report
  time among equal ranks. Report times are ISO-8601 strings, which order as text.
\<close>

definition severityThenTimeSorted :: "EmergencyCase list \<Rightarrow> bool" where
  "severityThenTimeSorted cl =
     sorted_wrt (\<lambda>a b. severityOrder (severity a) < severityOrder (severity b) \<or>
                        (severityOrder (severity a) = severityOrder (severity b) \<and>
                         timeOfReport a \<le> timeOfReport b)) cl"

text \<open>
  The sort key of the specification for place groups: \<open>mayPrecede a b\<close> holds when
  \<open>a\<close> has the lower minimum severity rank, or the same and at least as many victims.
\<close>

definition minSeverityRank :: "PlaceGroup \<Rightarrow> int" where
  "minSeverityRank g = Min (set (map (\<lambda>c. severityOrder (severity c)) (caseList g)))"

definition mayPrecede :: "PlaceGroup \<Rightarrow> PlaceGroup \<Rightarrow> bool" where
  "mayPrecede a b =
     (minSeverityRank a < minSeverityRank b \<or>
      (minSeverityRank a = minSeverityRank b \<and> totalVictims b \<le> totalVictims a))"

text \<open>
  The two place groups the grouper builds from the three example cases; the one of the
  square has 3 victims, as the group of the specification's example.
\<close>

definition groupSquare :: PlaceGroup where
  "groupSquare =
     \<lparr> group_placeName = ''Square'', lat = 0, lng = 0, caseList = [caseLate, caseEarly],
       totalVictims = 3, requiredServices = [Cardiology, Orthopedics] \<rparr>"

definition groupStation :: PlaceGroup where
  "groupStation =
     \<lparr> group_placeName = ''Station'', lat = 0, lng = 0, caseList = [caseOther],
       totalVictims = 1, requiredServices = [] \<rparr>"

text \<open>
  Forgetting what an earlier pass left in \<open>assignedHospital\<close>: the field is the output of
  the engine and is overwritten by every pass.
\<close>

definition clearAssigned :: "EmergencyCase \<Rightarrow> EmergencyCase" where
  "clearAssigned c = c\<lparr>assignedHospital := None\<rparr>"

definition clearGroup :: "PlaceGroup \<Rightarrow> PlaceGroup" where
  "clearGroup g = g\<lparr>caseList := map clearAssigned (caseList g)\<rparr>"

section \<open>Sorting and searching\<close>

lemma haversineKm_same: "haversineKm 0 0 0 0 = 0"
  by (simp add: haversineKm_def atan2_def)

lemma haversineKm_antipode: "haversineKm 0 0 0 180 = 6371 * pi"
  by (simp add: haversineKm_def atan2_def)

text \<open>With a comparator that follows a key, \<open>Array_sort\<close> is the stable sort by that key.\<close>

lemma insert_cmp_insort_key:
  assumes "\<And>x y. (cmp x y \<le> 0) = (f x \<le> f y)"
  shows "insert_cmp cmp x ys = insort_key f x ys"
  by (induction ys) (simp_all add: assms)

lemma Array_sort_sort_key:
  assumes "\<And>x y. (cmp x y \<le> 0) = (f x \<le> f y)"
  shows "Array_sort cmp xs = sort_key f xs"
  by (induction xs)
    (simp_all add: Array_sort_def insert_cmp_insort_key [where cmp=cmp and f=f, OF assms])

lemma insert_cmp_map:
  assumes "\<And>x y. cmp' (g x) (g y) = cmp x y"
  shows "insert_cmp cmp' (g x) (map g ys) = map g (insert_cmp cmp x ys)"
  by (induction ys) (simp_all add: assms)

lemma Array_sort_map:
  assumes "\<And>x y. cmp' (g x) (g y) = cmp x y"
  shows "Array_sort cmp' (map g xs) = map g (Array_sort cmp xs)"
  by (induction xs)
    (simp_all add: Array_sort_def insert_cmp_map [where cmp=cmp and cmp'=cmp' and g=g, OF assms])

lemma sortByDist_sort_key:
  "sortByDist la lo hospitals =
     sort_key (\<lambda>h. haversineKm la lo (hospital_latitude h) (hospital_longitude h)) hospitals"
  unfolding sortByDist_def by (rule Array_sort_sort_key) simp

lemma sortByDist_map:
  assumes "\<And>h. hospital_latitude (g h) = hospital_latitude h"
      and "\<And>h. hospital_longitude (g h) = hospital_longitude h"
  shows "sortByDist la lo (map g hs) = map g (sortByDist la lo hs)"
  unfolding sortByDist_def
  by (rule Array_sort_map) (simp add: assms)

text \<open>Each search loop returns the first element of the ranking that passes its test.\<close>

lemma hasServices_iff: "hasServices req h = (\<forall>k\<in>set req. offers h k)"
  by (simp add: hasServices_def list_all_iff)

lemma capacityAndServicesLoop_find:
  "capacityAndServicesLoop u n req xs =
     find (\<lambda>h. n \<le> max 0 (available (emergencyBeds h) - usedOf u (name h)) \<and>
                (\<forall>k\<in>set req. offers h k)) xs"
  by (induction xs) (simp_all add: availableAfterUse_def hasServices_iff)

lemma capacityLoop_find:
  "capacityLoop u n xs =
     find (\<lambda>h. n \<le> max 0 (available (emergencyBeds h) - usedOf u (name h))) xs"
  by (induction xs) (simp_all add: availableAfterUse_def)

lemma servicesLoop_find:
  "servicesLoop req xs = find (\<lambda>h. \<forall>k\<in>set req. offers h k) xs"
  by (induction xs) (simp_all add: hasServices_iff)

lemma backupLoop_find:
  "backupLoop excl n req xs =
     find (\<lambda>h. Some (name h) \<noteq> excl \<and> n \<le> available (emergencyBeds h) \<and>
                (\<forall>k\<in>set req. offers h k)) xs"
  by (induction xs) (simp_all add: hasServices_iff)

lemma find_Some_member:
  "find P xs = Some x \<Longrightarrow> x \<in> set xs \<and> P x"
  by (induction xs) (auto split: if_splits)

lemma find_sorted_least:
  assumes "sorted (map d xs)" and "find P xs = Some x" and "y \<in> set xs" and "P y"
  shows "d x \<le> d y"
  using assms
proof (induction xs)
  case Nil
  then show ?case by simp
next
  case (Cons a xs)
  then show ?case by (auto split: if_splits)
qed

lemma find_map_option:
  assumes "\<And>h. P (g h) = P h"
  shows "find P (map g xs) = map_option g (find P xs)"
  by (induction xs) (simp_all add: assms)

lemma findNearest_find:
  "findNearestHospitalWithCapacityAndServices la lo hospitals u n req =
     (let byDist = sort_key (\<lambda>h. haversineKm la lo (hospital_latitude h) (hospital_longitude h)) hospitals
      in case find (\<lambda>h. n \<le> max 0 (available (emergencyBeds h) - usedOf u (name h)) \<and>
                         (\<forall>k\<in>set req. offers h k)) byDist of
           Some h \<Rightarrow> Some h
         | None \<Rightarrow>
             (case find (\<lambda>h. n \<le> max 0 (available (emergencyBeds h) - usedOf u (name h))) byDist of
                Some h \<Rightarrow> Some h
              | None \<Rightarrow>
                  (case find (\<lambda>h. \<forall>k\<in>set req. offers h k) byDist of
                     Some h \<Rightarrow> Some h
                   | None \<Rightarrow> (case byDist of [] \<Rightarrow> None | h # _ \<Rightarrow> Some h))))"
  unfolding findNearestHospitalWithCapacityAndServices_def sortByDist_sort_key
      capacityAndServicesLoop_find capacityLoop_find servicesLoop_find Let_def
  by (simp split: option.splits)

lemma tier_chain:
  assumes "xs \<noteq> []"
  shows "(case find P xs of Some h \<Rightarrow> Some h | None \<Rightarrow>
           (case find Q xs of Some h \<Rightarrow> Some h | None \<Rightarrow>
             (case find R xs of Some h \<Rightarrow> Some h | None \<Rightarrow>
               (case xs of [] \<Rightarrow> None | h # _ \<Rightarrow> Some h)))) =
         Some (case find P xs of Some h \<Rightarrow> h | None \<Rightarrow>
           (case find Q xs of Some h \<Rightarrow> h | None \<Rightarrow>
             (case find R xs of Some h \<Rightarrow> h | None \<Rightarrow> hd xs)))"
  using assms by (simp split: option.splits list.splits)

text \<open>For a positive number of beds the clamp at zero makes no difference.\<close>

lemma availableAfterUse_positive:
  "0 < n \<Longrightarrow>
   (n \<le> availableAfterUse u h) = (n \<le> available (emergencyBeds h) - usedOf u (name h))"
  by (auto simp: availableAfterUse_def Let_def)

lemma offers_setOtherPools [simp]:
  "offers (setOtherPools icu ped lab pharm h) k = offers h k"
  by (cases k) (simp_all add: setOtherPools_def)

section \<open>The tiers of the assignment engine\<close>

text \<open>
  C1. Let a group be processed with a non-empty hospital list. Rank all hospitals by
  their haversine distance from the group's centroid, ascending, equal distances in input
  order (\<open>sort_key\<close> is the stable sort). The hospital the engine chooses, and records
  for the group's place, is the first of the ranking that passes tier 1 (free emergency
  beds after the ledger, not below zero, at least the victim count, and every required
  service offered); if none does, the first that passes tier 2 (the beds alone); if none
  does, the first that passes tier 3 (the services alone); and else the head of the
  ranking.
\<close>

theorem tier_selection:
  assumes "hospitals \<noteq> []"
  shows "let ranked = sort_key (\<lambda>h. haversineKm (lat g) (lng g) (hospital_latitude h)
                                   (hospital_longitude h)) hospitals;
             beds = (\<lambda>h. max 0 (available (emergencyBeds h) - usedOf (usedCapacity st) (name h)));
             tier1 = (\<lambda>h. totalVictims g \<le> beds h \<and> (\<forall>k\<in>set (requiredServices g). offers h k));
             tier2 = (\<lambda>h. totalVictims g \<le> beds h);
             tier3 = (\<lambda>h. \<forall>k\<in>set (requiredServices g). offers h k);
             chosen = (case find tier1 ranked of Some h1 \<Rightarrow> h1 | None \<Rightarrow>
                       (case find tier2 ranked of Some h2 \<Rightarrow> h2 | None \<Rightarrow>
                        (case find tier3 ranked of Some h3 \<Rightarrow> h3 | None \<Rightarrow> hd ranked)))
         in findNearestHospitalWithCapacityAndServices (lat g) (lng g) hospitals
              (usedCapacity st) (totalVictims g) (requiredServices g) = Some chosen \<and>
            placeToHospital (assignGroup hospitals g st) (group_placeName g) = Some (name chosen)"
proof -
  let ?ranked = "sort_key (\<lambda>h. haversineKm (lat g) (lng g) (hospital_latitude h)
                                   (hospital_longitude h)) hospitals"
  let ?beds = "\<lambda>h. max 0 (available (emergencyBeds h) - usedOf (usedCapacity st) (name h))"
  let ?t1 = "\<lambda>h. totalVictims g \<le> ?beds h \<and> (\<forall>k\<in>set (requiredServices g). offers h k)"
  let ?t2 = "\<lambda>h. totalVictims g \<le> ?beds h"
  let ?t3 = "\<lambda>h. \<forall>k\<in>set (requiredServices g). offers h k"
  let ?chosen = "case find ?t1 ?ranked of Some h1 \<Rightarrow> h1 | None \<Rightarrow>
                       (case find ?t2 ?ranked of Some h2 \<Rightarrow> h2 | None \<Rightarrow>
                        (case find ?t3 ?ranked of Some h3 \<Rightarrow> h3 | None \<Rightarrow> hd ?ranked))"
  from assms have ne: "?ranked \<noteq> []"
    by (metis set_sort set_empty)
  have sel: "findNearestHospitalWithCapacityAndServices (lat g) (lng g) hospitals
              (usedCapacity st) (totalVictims g) (requiredServices g) = Some ?chosen"
    unfolding findNearest_find Let_def by (rule tier_chain [OF ne])
  have asg: "placeToHospital (assignGroup hospitals g st) (group_placeName g) =
              Some (name ?chosen)"
    unfolding assignGroup_def sel by (simp add: Let_def)
  show ?thesis
    unfolding Let_def by (rule conjI [OF sel asg])
qed

theorem tier_selection_witness:
  "[exampleA, exampleB] \<noteq> [] \<and>
   findNearestHospitalWithCapacityAndServices (lat groupSquare) (lng groupSquare)
     [exampleA, exampleB] (usedCapacity initialPassState) (totalVictims groupSquare)
     (requiredServices groupSquare) = Some exampleB \<and>
   placeToHospital (assignGroup [exampleA, exampleB] groupSquare initialPassState)
     (group_placeName groupSquare) = Some ''B''"
proof -
  have ne: "[exampleA, exampleB] \<noteq> []" by simp
  have ord: "sort_key (\<lambda>h. haversineKm (lat groupSquare) (lng groupSquare)
                 (hospital_latitude h) (hospital_longitude h)) [exampleA, exampleB] =
             [exampleA, exampleB]"
    by (simp add: groupSquare_def exampleA_def exampleB_def haversineKm_same
        haversineKm_antipode)
  show ?thesis
    using tier_selection [OF ne, of groupSquare initialPassState]
    unfolding Let_def ord
    by (simp add: groupSquare_def exampleA_def exampleB_def initialPassState_def usedOf_def)
qed

section \<open>The backup finder\<close>

text \<open>
  C8. A hospital qualifies when its name is not the excluded one, its raw free emergency
  beds are at least the required number and it offers every required service.
  \<open>findBackupHospital\<close> returns null exactly when no hospital of the list qualifies;
  a hospital it returns is in the list, qualifies, and no qualifying hospital is nearer.
  It is the first qualifying hospital of the stable ranking by distance.
\<close>

theorem findBackup_nearest_qualifying:
  "let qualifies = (\<lambda>h. Some (name h) \<noteq> excl \<and> n \<le> available (emergencyBeds h) \<and>
                        (\<forall>k\<in>set req. offers h k));
       d = (\<lambda>h. haversineKm la lo (hospital_latitude h) (hospital_longitude h))
   in (findBackupHospital la lo hospitals excl n req = None \<longleftrightarrow>
         \<not> (\<exists>h\<in>set hospitals. qualifies h)) \<and>
      (\<forall>h. findBackupHospital la lo hospitals excl n req = Some h \<longrightarrow>
         h \<in> set hospitals \<and> qualifies h \<and>
         (\<forall>h'\<in>set hospitals. qualifies h' \<longrightarrow> d h \<le> d h')) \<and>
      findBackupHospital la lo hospitals excl n req = find qualifies (sort_key d hospitals)"
proof -
  let ?q = "\<lambda>h. Some (name h) \<noteq> excl \<and> n \<le> available (emergencyBeds h) \<and>
                        (\<forall>k\<in>set req. offers h k)"
  let ?d = "\<lambda>h. haversineKm la lo (hospital_latitude h) (hospital_longitude h)"
  have eq: "findBackupHospital la lo hospitals excl n req = find ?q (sort_key ?d hospitals)"
    by (simp add: findBackupHospital_def backupLoop_find sortByDist_sort_key)
  have none: "(find ?q (sort_key ?d hospitals) = None) = (\<not> (\<exists>h\<in>set hospitals. ?q h))"
    by (auto simp: find_None_iff)
  have some: "h \<in> set hospitals \<and> ?q h \<and> (\<forall>h'\<in>set hospitals. ?q h' \<longrightarrow> ?d h \<le> ?d h')"
    if f: "find ?q (sort_key ?d hospitals) = Some h" for h
  proof -
    from find_Some_member [OF f] have "h \<in> set (sort_key ?d hospitals)" and "?q h"
      by blast+
    moreover have "?d h \<le> ?d h'" if "h' \<in> set hospitals" "?q h'" for h'
      using find_sorted_least [of ?d "sort_key ?d hospitals" ?q h h'] f that
      by simp
    ultimately show ?thesis by simp
  qed
  show ?thesis
    unfolding Let_def eq none using some by blast
qed

theorem findBackup_nearest_qualifying_witness:
  "findBackupHospital 0 0 [exampleB, exampleA] (Some ''A'') 3 [Cardiology] = Some exampleB \<and>
   findBackupHospital 0 0 [exampleB, exampleA] (Some ''B'') 3 [Cardiology] = None \<and>
   findBackupHospital 0 0 [exampleB, exampleA] None 1 [] = Some exampleA"
proof -
  have ord: "sort_key (\<lambda>h. haversineKm 0 0 (hospital_latitude h) (hospital_longitude h))
               [exampleB, exampleA] = [exampleA, exampleB]"
    by (simp add: exampleA_def exampleB_def haversineKm_same haversineKm_antipode not_le)
  show ?thesis
    using findBackup_nearest_qualifying [of "Some ''A''" 3 "[Cardiology]" 0 0 "[exampleB, exampleA]"]
      findBackup_nearest_qualifying [of "Some ''B''" 3 "[Cardiology]" 0 0 "[exampleB, exampleA]"]
      findBackup_nearest_qualifying [of None 1 "[]" 0 0 "[exampleB, exampleA]"]
    unfolding Let_def ord
    by (simp add: exampleA_def exampleB_def)
qed

section \<open>Capacity comes from the emergency beds alone\<close>

text \<open>
  C10. The free capacity of a hospital in the batch pass is its free emergency beds less
  the ledger entry of its name, not below zero. Replacing the ICU beds, the pediatric
  beds, the lab slots and the pharmacy slots of every hospital by any other values
  changes neither the hospital the batch selection returns nor the one the backup finder
  returns (the same hospital comes back, carrying the replaced values).
\<close>

theorem capacity_from_emergency_beds_only:
  "availableAfterUse ledger h = max 0 (available (emergencyBeds h) - usedOf ledger (name h)) \<and>
   findNearestHospitalWithCapacityAndServices la lo
       (map (setOtherPools icu ped lab pharm) hospitals) ledger n req =
     map_option (setOtherPools icu ped lab pharm)
       (findNearestHospitalWithCapacityAndServices la lo hospitals ledger n req) \<and>
   findBackupHospital la lo (map (setOtherPools icu ped lab pharm) hospitals) excl n req =
     map_option (setOtherPools icu ped lab pharm)
       (findBackupHospital la lo hospitals excl n req)"
proof -
  let ?g = "setOtherPools icu ped lab pharm"
  have srt: "sortByDist la lo (map ?g hospitals) = map ?g (sortByDist la lo hospitals)"
    by (rule sortByDist_map) (simp_all add: setOtherPools_def)
  have nm: "name (?g h) = name h"
    "available (emergencyBeds (?g h)) = available (emergencyBeds h)" for h
    by (simp_all add: setOtherPools_def)
  have a: "findNearestHospitalWithCapacityAndServices la lo (map ?g hospitals) ledger n req =
     map_option ?g (findNearestHospitalWithCapacityAndServices la lo hospitals ledger n req)"
    unfolding findNearestHospitalWithCapacityAndServices_def Let_def srt
      capacityAndServicesLoop_find capacityLoop_find servicesLoop_find
    by (simp add: find_map_option nm split: option.splits list.splits)
  have b: "findBackupHospital la lo (map ?g hospitals) excl n req =
     map_option ?g (findBackupHospital la lo hospitals excl n req)"
    unfolding findBackupHospital_def srt backupLoop_find
    by (simp add: find_map_option nm)
  show ?thesis using a b by (simp add: availableAfterUse_def)
qed

section \<open>Effective service availability\<close>

lemma availabilityLoop_result:
  "distinct ks \<Longrightarrow>
   availabilityLoop h n ks i m k =
     (if k \<in> set ks
      then Some (offers h k \<and>
                 ((isIbnTofail h \<and> (k = TraumaUnit \<or> k = Cardiology)) \<or>
                  n \<le> i + int (length (filter (offers h) (takeWhile (\<lambda>x. x \<noteq> k) ks)))))
      else m k)"
proof (induction ks arbitrary: i m)
  case Nil
  then show ?case by simp
next
  case (Cons x ks)
  then show ?case by (auto simp: Let_def)
qed

lemma take_filter_position:
  "distinct ks \<Longrightarrow> k \<in> set ks \<Longrightarrow> P k \<Longrightarrow>
   (k \<in> set (take j (filter P ks))) = (length (filter P (takeWhile (\<lambda>x. x \<noteq> k) ks)) < j)"
proof (induction ks arbitrary: j)
  case Nil
  then show ?case by simp
next
  case (Cons x ks)
  then show ?case by (cases j) auto
qed

lemma filter_before_less:
  "k \<in> set ks \<Longrightarrow> P k \<Longrightarrow>
   length (filter P (takeWhile (\<lambda>x. x \<noteq> k) ks)) < length (filter P ks)"
  by (induction ks) auto

lemma SERVICE_KEYS_ORDER_all: "k \<in> set SERVICE_KEYS_ORDER"
  by (cases k) (simp_all add: SERVICE_KEYS_ORDER_def)

lemma SERVICE_KEYS_ORDER_distinct: "distinct SERVICE_KEYS_ORDER"
  by (simp add: SERVICE_KEYS_ORDER_def)

text \<open>
  C3, as the code has it. Let \<open>p\<close> be between 0 and 100, let \<open>offered\<close> be the services
  the hospital offers, in the canonical order, and \<open>overloaded\<close> its first
  \<open>floor(N * p / 100)\<close> elements, \<open>N\<close> the number offered. Every service has an entry in
  the result. A service not offered is unavailable. An offered one is available exactly
  when it is not among the overloaded ones, except that for the hospital Ibn Tofail
  (id \<open>h2\<close> or that name) the trauma unit and cardiology are available whenever offered.
\<close>

theorem effective_availability:
  assumes "0 \<le> p" and "p \<le> 100"
  shows "let offered = filter (offers h) SERVICE_KEYS_ORDER;
             overloaded = take (nat \<lfloor>real (length offered) * p / 100\<rfloor>) offered
         in \<forall>k. getEffectiveServiceAvailability h p k =
                  Some (offers h k \<and>
                        (k \<notin> set overloaded \<or>
                         (isIbnTofail h \<and> (k = TraumaUnit \<or> k = Cardiology))))"
proof -
  let ?offered = "filter (offers h) SERVICE_KEYS_ORDER"
  let ?F = "\<lfloor>real (length ?offered) * p / 100\<rfloor>"
  have "getEffectiveServiceAvailability h p k =
          Some (offers h k \<and>
                (k \<notin> set (take (nat ?F) ?offered) \<or>
                 (isIbnTofail h \<and> (k = TraumaUnit \<or> k = Cardiology))))" for k
  proof (cases "offers h k")
    case False
    then show ?thesis
      by (simp add: getEffectiveServiceAvailability_def Let_def
          availabilityLoop_result [OF SERVICE_KEYS_ORDER_distinct] SERVICE_KEYS_ORDER_all)
  next
    case True
    let ?idx = "length (filter (offers h) (takeWhile (\<lambda>x. x \<noteq> k) SERVICE_KEYS_ORDER))"
    have lt: "?idx < length ?offered"
      using filter_before_less [of k SERVICE_KEYS_ORDER "offers h"] True SERVICE_KEYS_ORDER_all
      by simp
    have pos: "(k \<in> set (take (nat ?F) ?offered)) = (?idx < nat ?F)"
      using take_filter_position [of SERVICE_KEYS_ORDER k "offers h" "nat ?F"] True
        SERVICE_KEYS_ORDER_all SERVICE_KEYS_ORDER_distinct by simp
    have "(min (int (length ?offered)) ?F \<le> int ?idx) = (\<not> ?idx < nat ?F)"
      using lt by (auto simp: min_def)
    then show ?thesis
      using True
      by (auto simp add: getEffectiveServiceAvailability_def Let_def pos
          availabilityLoop_result [OF SERVICE_KEYS_ORDER_distinct] SERVICE_KEYS_ORDER_all)
  qed
  then show ?thesis by (simp add: Let_def)
qed

text \<open>
  At occupancy 50, hospital B of the example offers 7 services, so its first 3 (trauma
  unit, cardiology, pediatrics) are overloaded; Ibn Tofail keeps its trauma unit.
\<close>

theorem effective_availability_witness:
  "(0::real) \<le> 50 \<and> (50::real) \<le> 100 \<and>
   getEffectiveServiceAvailability exampleB 50 TraumaUnit = Some False \<and>
   getEffectiveServiceAvailability exampleB 50 Pediatrics = Some False \<and>
   getEffectiveServiceAvailability exampleB 50 Neurosurgery = Some False \<and>
   getEffectiveServiceAvailability exampleB 50 Radiology = Some True \<and>
   getEffectiveServiceAvailability hospital_h2 50 TraumaUnit = Some True"
proof -
  have a: "(0::real) \<le> 50" and b: "(50::real) \<le> 100" by simp_all
  show ?thesis
    using effective_availability [OF a b, of exampleB]
      effective_availability [OF a b, of hospital_h2]
    by (simp add: Let_def SERVICE_KEYS_ORDER_def exampleB_def hospital_h2_def isIbnTofail_def
        IbnTofailName_def)
qed

text \<open>
  The claim without the exception fails at Ibn Tofail: at its own occupancy, 66, it offers
  7 services, the first 4 of them count as overloaded, the trauma unit is the first, and
  the code marks it available.
\<close>

theorem first_overloaded_counterexample:
  "\<not> (getEffectiveServiceAvailability hospital_h2 66 TraumaUnit =
        Some (offers hospital_h2 TraumaUnit \<and>
              TraumaUnit \<notin> set (take (nat \<lfloor>real (length (filter (offers hospital_h2)
                 SERVICE_KEYS_ORDER)) * 66 / 100\<rfloor>) (filter (offers hospital_h2) SERVICE_KEYS_ORDER))))"
  by (simp add: getEffectiveServiceAvailability_def SERVICE_KEYS_ORDER_def hospital_h2_def
      isIbnTofail_def)

section \<open>Occupancy of the slot pools\<close>

lemma occupancy_h2: "computeOccupancyPercentage hospital_h2 = 66"
  by (simp add: computeOccupancyPercentage_def hospital_h2_def poolUsed_def labUsed_def
      pharmacyUsed_def LAB_PHARMACY_MAX_def Math_round_def)

lemma slot_pool_fraction_in_range:
  "labAvailable h \<le> 10 \<Longrightarrow>
   labUsed h = clamp01 (1 - real_of_int (labAvailable h) / 10)"
  "pharmacyAvailable h \<le> 10 \<Longrightarrow>
   pharmacyUsed h = clamp01 (1 - real_of_int (pharmacyAvailable h) / 10)"
  by (simp_all add: labUsed_def pharmacyUsed_def clamp01_def LAB_PHARMACY_MAX_def)

text \<open>
  C7. With 20 free lab slots and 20 free pharmacy slots, counts that are not negative,
  the code's used fractions are \<open>-1\<close>, where clamping \<open>1 - 20 / 10\<close> to the interval
  from 0 to 1 gives 0: \<open>Math.min(1, _)\<close> bounds the fraction from above only.
\<close>

theorem slot_pool_fraction_negative:
  "0 \<le> labAvailable (exampleA\<lparr>labAvailable := 20, pharmacyAvailable := 20\<rparr>) \<and>
   labUsed (exampleA\<lparr>labAvailable := 20, pharmacyAvailable := 20\<rparr>) = - 1 \<and>
   pharmacyUsed (exampleA\<lparr>labAvailable := 20, pharmacyAvailable := 20\<rparr>) = - 1 \<and>
   clamp01 (1 - real_of_int
      (labAvailable (exampleA\<lparr>labAvailable := 20, pharmacyAvailable := 20\<rparr>)) / 10) = 0"
  by (simp add: labUsed_def pharmacyUsed_def clamp01_def LAB_PHARMACY_MAX_def exampleA_def)

section \<open>More on sorting\<close>

lemma insert_cmp_insort_key_on:
  assumes "\<And>y. y \<in> set ys \<Longrightarrow> (cmp x y \<le> 0) = (f x \<le> f y)"
  shows "insert_cmp cmp x ys = insort_key f x ys"
  using assms by (induction ys) simp_all

lemma Array_sort_sort_key_on:
  assumes "\<And>x y. x \<in> set xs \<Longrightarrow> y \<in> set xs \<Longrightarrow> (cmp x y \<le> 0) = (f x \<le> f y)"
  shows "Array_sort cmp xs = sort_key f xs"
  using assms
proof (induction xs)
  case Nil
  then show ?case by (simp add: Array_sort_def)
next
  case (Cons x xs)
  have ih: "Array_sort cmp xs = sort_key f xs"
    by (rule Cons.IH) (simp add: Cons.prems)
  have "insert_cmp cmp x (sort_key f xs) = insort_key f x (sort_key f xs)"
    by (rule insert_cmp_insort_key_on) (simp add: Cons.prems)
  with ih show ?case
    by (simp add: Array_sort_def)
qed

lemma Math_min_Min: "xs \<noteq> [] \<Longrightarrow> Math_min xs = Some (Min (set xs))"
proof (induction xs)
  case Nil
  then show ?case by simp
next
  case (Cons x xs)
  then show ?case by (cases "xs = []") (simp_all add: min.commute)
qed

lemma severityOrder_inj: "(severityOrder s = severityOrder t) = (s = t)"
  by (cases s; cases t) (simp_all add: severityOrder_def)

section \<open>Grouping by place\<close>

lemma groupByPlace_snoc: "groupByPlace (cs @ [c]) = byPlaceAdd c (groupByPlace cs)"
  by (simp add: groupByPlace_def)

lemma map_fst_Map_set:
  "map fst (Map_set k v m) = (if k \<in> fst ` set m then map fst m else map fst m @ [k])"
  by (induction m) (force+)

lemma map_of_Map_set:
  "map_of (Map_set k v m) = (map_of m)(k \<mapsto> v)"
  by (induction m) (auto simp: fun_eq_iff)

lemma distinct_Map_set:
  "distinct (map fst m) \<Longrightarrow> distinct (map fst (Map_set k v m))"
  by (simp add: map_fst_Map_set)

text \<open>The entries of byPlace: keys distinct, each key with the cases of that place in input order.\<close>

lemma groupByPlace_invariant:
  "distinct (map fst (groupByPlace cs)) \<and>
   (\<forall>p. map_of (groupByPlace cs) p =
        (if filter (\<lambda>c. placeName c = p) cs = [] then None
         else Some (filter (\<lambda>c. placeName c = p) cs)))"
proof (induction cs rule: rev_induct)
  case Nil
  then show ?case by (simp add: groupByPlace_def)
next
  case (snoc c cs)
  then show ?case
    by (auto simp: groupByPlace_snoc byPlaceAdd_def Let_def distinct_Map_set map_of_Map_set)
qed

lemma groupByPlace_entry:
  assumes "(p, l) \<in> set (groupByPlace cs)"
  shows "l = filter (\<lambda>c. placeName c = p) cs" and "l \<noteq> []"
proof -
  from groupByPlace_invariant [of cs] have d: "distinct (map fst (groupByPlace cs))"
    and m: "\<And>p. map_of (groupByPlace cs) p =
        (if filter (\<lambda>c. placeName c = p) cs = [] then None
         else Some (filter (\<lambda>c. placeName c = p) cs))"
    by blast+
  from assms d have "map_of (groupByPlace cs) p = Some l" by simp
  with m [of p] show "l = filter (\<lambda>c. placeName c = p) cs" and "l \<noteq> []"
    by (auto split: if_splits)
qed

lemma groupByPlace_keys: "fst ` set (groupByPlace cs) = placeName ` set cs"
proof -
  from groupByPlace_invariant [of cs] have
    m: "\<And>p. map_of (groupByPlace cs) p =
        (if filter (\<lambda>c. placeName c = p) cs = [] then None
         else Some (filter (\<lambda>c. placeName c = p) cs))"
    by blast
  have "p \<in> fst ` set (groupByPlace cs) \<longleftrightarrow> p \<in> placeName ` set cs" for p
  proof -
    have "p \<in> fst ` set (groupByPlace cs) \<longleftrightarrow> map_of (groupByPlace cs) p \<noteq> None"
      by (simp add: map_of_eq_None_iff)
    also have "\<dots> \<longleftrightarrow> filter (\<lambda>c. placeName c = p) cs \<noteq> []"
      using m [of p] by simp
    also have "\<dots> \<longleftrightarrow> p \<in> placeName ` set cs"
      by (auto simp: filter_empty_conv)
    finally show ?thesis .
  qed
  then show ?thesis by blast
qed

lemma makePlaceGroup_fields:
  "group_placeName (makePlaceGroup e) = fst e"
  "caseList (makePlaceGroup e) =
     Array_sort (\<lambda>a b. severityOrder (severity a) - severityOrder (severity b)) (snd e)"
  "totalVictims (makePlaceGroup e) = foldl (\<lambda>s c. s + numberOfPatients c) 0 (snd e)"
  by (simp_all add: makePlaceGroup_def Let_def)

lemma caseList_sort_key:
  "Array_sort (\<lambda>a b. severityOrder (severity a) - severityOrder (severity b)) l =
   sort_key (\<lambda>c. severityOrder (severity c)) l"
  by (rule Array_sort_sort_key) simp

lemma buildPlaceGroups_names:
  "map group_placeName (buildPlaceGroups cs) = map fst (groupByPlace cs)"
  by (simp add: buildPlaceGroups_def makePlaceGroup_fields comp_def)

lemma buildPlaceGroups_distinct: "distinct (map group_placeName (buildPlaceGroups cs))"
  using groupByPlace_invariant [of cs] by (simp add: buildPlaceGroups_names)

lemma buildPlaceGroups_places:
  "group_placeName ` set (buildPlaceGroups cs) = placeName ` set cs"
proof -
  have "group_placeName ` set (buildPlaceGroups cs) = set (map group_placeName (buildPlaceGroups cs))"
    by simp
  also have "\<dots> = fst ` set (groupByPlace cs)"
    unfolding buildPlaceGroups_names by simp
  finally show ?thesis by (simp add: groupByPlace_keys)
qed

lemma buildPlaceGroups_caseList:
  assumes "g \<in> set (buildPlaceGroups cs)"
  shows "caseList g = sort_key (\<lambda>c. severityOrder (severity c))
                        (filter (\<lambda>c. placeName c = group_placeName g) cs)"
    and "caseList g \<noteq> []"
proof -
  from assms obtain e where e: "e \<in> set (groupByPlace cs)" and g: "g = makePlaceGroup e"
    by (auto simp: buildPlaceGroups_def)
  obtain p l where pl: "e = (p, l)" by (cases e)
  from groupByPlace_entry [of p l cs] e pl have l: "l = filter (\<lambda>c. placeName c = p) cs"
    by simp
  from groupByPlace_entry [of p l cs] e pl have ne: "l \<noteq> []" by simp
  show "caseList g = sort_key (\<lambda>c. severityOrder (severity c))
                        (filter (\<lambda>c. placeName c = group_placeName g) cs)"
    by (simp add: g pl makePlaceGroup_fields caseList_sort_key l)
  have "set (caseList g) = set l"
    by (simp add: g pl makePlaceGroup_fields caseList_sort_key)
  with ne show "caseList g \<noteq> []" by auto
qed

text \<open>
  C6, as the code has it. The ranks are critical 0, severe 1, moderate 2, mild 3. In every
  place group the grouper builds, the member list is sorted ascending by severity rank,
  and the members of one severity are the cases of that place and severity in the order
  of the input list: the sort is stable and compares nothing but the rank, so equal ranks
  keep input order, whatever the report times.
\<close>

theorem group_members_sorted_by_severity:
  "severityOrder critical = 0 \<and> severityOrder severe = 1 \<and>
   severityOrder moderate = 2 \<and> severityOrder mild = 3 \<and>
   (\<forall>g\<in>set (buildPlaceGroups cases).
      sorted (map (\<lambda>c. severityOrder (severity c)) (caseList g)) \<and>
      (\<forall>s. filter (\<lambda>c. severity c = s) (caseList g) =
           filter (\<lambda>c. severity c = s \<and> placeName c = group_placeName g) cases))"
proof -
  have "sorted (map (\<lambda>c. severityOrder (severity c)) (caseList g)) \<and>
      (\<forall>s. filter (\<lambda>c. severity c = s) (caseList g) =
           filter (\<lambda>c. severity c = s \<and> placeName c = group_placeName g) cases)"
    if g: "g \<in> set (buildPlaceGroups cases)" for g
  proof -
    let ?f = "\<lambda>c. severityOrder (severity c)"
    let ?l = "filter (\<lambda>c. placeName c = group_placeName g) cases"
    have cl: "caseList g = sort_key ?f ?l"
      by (rule buildPlaceGroups_caseList [OF g])
    have "filter (\<lambda>c. severity c = s) (caseList g) =
           filter (\<lambda>c. severity c = s \<and> placeName c = group_placeName g) cases" for s
    proof -
      have "filter (\<lambda>c. ?f c = severityOrder s) (sort_key ?f ?l) =
            filter (\<lambda>c. ?f c = severityOrder s) ?l"
        by (rule sort_key_stable)
      then show ?thesis
        by (simp add: cl severityOrder_inj conj_commute)
    qed
    then show ?thesis by (simp add: cl)
  qed
  then show ?thesis by (simp add: severityOrder_def)
qed

theorem group_members_sorted_by_severity_witness:
  "caseList (hd (buildPlaceGroups [caseLate, caseOther, caseEarly])) = [caseLate, caseEarly] \<and>
   group_placeName (hd (buildPlaceGroups [caseLate, caseOther, caseEarly])) = ''Square'' \<and>
   sorted (map (\<lambda>c. severityOrder (severity c))
     (caseList (hd (buildPlaceGroups [caseLate, caseOther, caseEarly]))))"
proof -
  have b: "groupByPlace [caseLate, caseOther, caseEarly] =
             [(''Square'', [caseLate, caseEarly]), (''Station'', [caseOther])]"
    by (simp add: groupByPlace_def byPlaceAdd_def caseLate_def caseOther_def caseEarly_def
        exampleCase_def)
  have m: "hd (buildPlaceGroups [caseLate, caseOther, caseEarly]) \<in>
             set (buildPlaceGroups [caseLate, caseOther, caseEarly])"
    unfolding buildPlaceGroups_def b by simp
  have srt: "Array_sort (\<lambda>a b. severityOrder (severity a) - severityOrder (severity b))
             [caseLate, caseEarly] = [caseLate, caseEarly]"
    by (simp add: Array_sort_def caseLate_def caseEarly_def exampleCase_def severityOrder_def)
  have c: "caseList (hd (buildPlaceGroups [caseLate, caseOther, caseEarly])) = [caseLate, caseEarly]"
    unfolding buildPlaceGroups_def b by (simp add: makePlaceGroup_fields srt)
  have n: "group_placeName (hd (buildPlaceGroups [caseLate, caseOther, caseEarly])) = ''Square''"
    unfolding buildPlaceGroups_def b by (simp add: makePlaceGroup_fields)
  from group_members_sorted_by_severity [of "[caseLate, caseOther, caseEarly]"] m
  have "sorted (map (\<lambda>c. severityOrder (severity c))
     (caseList (hd (buildPlaceGroups [caseLate, caseOther, caseEarly]))))"
    by blast
  with c n show ?thesis by simp
qed

text \<open>
  Two severe cases at one place, the one reported at 10:00 listed before the one reported
  at 09:00: the group keeps them in that order, so its members are not in ascending report
  time among equal severity.
\<close>

theorem time_tie_break_counterexample:
  "\<not> list_all (\<lambda>g. severityThenTimeSorted (caseList g)) (buildPlaceGroups [caseLate, caseEarly])"
proof -
  have b: "groupByPlace [caseLate, caseEarly] = [(''Square'', [caseLate, caseEarly])]"
    by (simp add: groupByPlace_def byPlaceAdd_def caseLate_def caseEarly_def exampleCase_def)
  have c: "Array_sort (\<lambda>a b. severityOrder (severity a) - severityOrder (severity b))
             [caseLate, caseEarly] = [caseLate, caseEarly]"
    by (simp add: Array_sort_def caseLate_def caseEarly_def exampleCase_def severityOrder_def)
  show ?thesis
    unfolding buildPlaceGroups_def b
    by (simp add: makePlaceGroup_fields c severityThenTimeSorted_def)
      (simp add: caseLate_def caseEarly_def exampleCase_def)
qed

section \<open>The processing order of the groups\<close>

lemma comparePlaceGroups_key:
  assumes "caseList a \<noteq> []" and "caseList b \<noteq> []"
  shows "(comparePlaceGroups a b \<le> 0) =
         ((minSeverityRank a, - totalVictims a) \<le> (minSeverityRank b, - totalVictims b))"
proof -
  have ma: "Math_min (map (\<lambda>c. severityOrder (severity c)) (caseList a)) =
              Some (minSeverityRank a)"
    using Math_min_Min [of "map (\<lambda>c. severityOrder (severity c)) (caseList a)"] assms
    by (simp add: minSeverityRank_def)
  have mb: "Math_min (map (\<lambda>c. severityOrder (severity c)) (caseList b)) =
              Some (minSeverityRank b)"
    using Math_min_Min [of "map (\<lambda>c. severityOrder (severity c)) (caseList b)"] assms
    by (simp add: minSeverityRank_def)
  show ?thesis
    unfolding comparePlaceGroups_def Let_def ma mb by auto
qed

lemma sortPlaceGroups_sort_key:
  assumes "\<forall>g\<in>set gs. caseList g \<noteq> []"
  shows "sortPlaceGroups gs = sort_key (\<lambda>g. (minSeverityRank g, - totalVictims g)) gs"
  unfolding sortPlaceGroups_def
  by (rule Array_sort_sort_key_on) (simp add: comparePlaceGroups_key assms)

text \<open>
  C5. For every list of place groups with members, the list the engine's loop runs over is
  sorted by minimum severity rank ascending, then by total victim count descending; it is
  a permutation of the input; and the groups that agree on both keys keep their input
  order. The pass runs its loop over the place groups in exactly this order.
\<close>

theorem group_processing_order:
  assumes "\<forall>g\<in>set gs. caseList g \<noteq> []"
  shows "sorted_wrt mayPrecede (sortPlaceGroups gs) \<and>
         mset (sortPlaceGroups gs) = mset gs \<and>
         (\<forall>r v. filter (\<lambda>g. minSeverityRank g = r \<and> totalVictims g = v) (sortPlaceGroups gs) =
                filter (\<lambda>g. minSeverityRank g = r \<and> totalVictims g = v) gs) \<and>
         runPass cases hospitals =
           assignLoop hospitals (sortPlaceGroups (buildPlaceGroups cases)) initialPassState"
proof -
  let ?f = "\<lambda>g. (minSeverityRank g, - totalVictims g)"
  have eq: "sortPlaceGroups gs = sort_key ?f gs"
    by (rule sortPlaceGroups_sort_key [OF assms])
  have "sorted (map ?f (sort_key ?f gs))"
    by (rule sorted_sort_key)
  then have "sorted_wrt (\<lambda>x y. ?f x \<le> ?f y) (sort_key ?f gs)"
    by (simp add: sorted_map)
  then have s: "sorted_wrt mayPrecede (sort_key ?f gs)"
    by (rule sorted_wrt_mono_rel [rotated]) (auto simp: mayPrecede_def)
  have st: "filter (\<lambda>g. minSeverityRank g = r \<and> totalVictims g = v) (sort_key ?f gs) =
            filter (\<lambda>g. minSeverityRank g = r \<and> totalVictims g = v) gs" for r v
    using sort_key_stable [of ?f "(r, - v)" gs] by simp
  show ?thesis
    unfolding eq using s st by (simp add: runPass_def)
qed

theorem group_processing_order_witness:
  "list_all (\<lambda>g. caseList g \<noteq> []) (buildPlaceGroups [caseLate, caseOther, caseEarly]) \<and>
   map group_placeName (buildPlaceGroups [caseLate, caseOther, caseEarly]) =
     [''Square'', ''Station''] \<and>
   map group_placeName (sortPlaceGroups (buildPlaceGroups [caseLate, caseOther, caseEarly])) =
     [''Station'', ''Square''] \<and>
   sorted_wrt mayPrecede (sortPlaceGroups (buildPlaceGroups [caseLate, caseOther, caseEarly]))"
proof -
  let ?gs = "buildPlaceGroups [caseLate, caseOther, caseEarly]"
  have b: "groupByPlace [caseLate, caseOther, caseEarly] =
             [(''Square'', [caseLate, caseEarly]), (''Station'', [caseOther])]"
    by (simp add: groupByPlace_def byPlaceAdd_def caseLate_def caseOther_def caseEarly_def
        exampleCase_def)
  have ne: "\<forall>g\<in>set ?gs. caseList g \<noteq> []"
    using buildPlaceGroups_caseList(2) by blast
  have cmp: "\<not> comparePlaceGroups
               (makePlaceGroup (''Square'', [caseLate, caseEarly]))
               (makePlaceGroup (''Station'', [caseOther])) \<le> 0"
    by (simp add: comparePlaceGroups_def makePlaceGroup_fields Array_sort_def
        caseLate_def caseOther_def caseEarly_def exampleCase_def severityOrder_def)
  have ord: "map group_placeName (sortPlaceGroups ?gs) = [''Station'', ''Square'']"
    unfolding buildPlaceGroups_def b
    by (simp add: sortPlaceGroups_def Array_sort_def cmp makePlaceGroup_fields)
  have nm: "map group_placeName ?gs = [''Square'', ''Station'']"
    unfolding buildPlaceGroups_def b by (simp add: makePlaceGroup_fields)
  from group_processing_order [OF ne]
  have "sorted_wrt mayPrecede (sortPlaceGroups ?gs)" by blast
  with ne ord nm show ?thesis by (simp add: list_all_iff)
qed

section \<open>Sorting keeps the elements\<close>

lemma mset_insert_cmp: "mset (insert_cmp cmp x ys) = add_mset x (mset ys)"
  by (induction ys) simp_all

lemma mset_Array_sort: "mset (Array_sort cmp xs) = mset xs"
  by (induction xs) (simp_all add: Array_sort_def mset_insert_cmp)

lemma set_Array_sort: "set (Array_sort cmp xs) = set xs"
  by (metis mset_Array_sort set_mset_mset)

lemma set_sortPlaceGroups: "set (sortPlaceGroups gs) = set gs"
  by (simp add: sortPlaceGroups_def set_Array_sort)

lemma distinct_names_sortPlaceGroups:
  "distinct (map group_placeName (sortPlaceGroups gs)) = distinct (map group_placeName gs)"
proof -
  have "mset (map group_placeName (sortPlaceGroups gs)) = mset (map group_placeName gs)"
    by (simp add: sortPlaceGroups_def mset_Array_sort)
  then show ?thesis by (rule mset_eq_imp_distinct_iff)
qed

section \<open>The example pass, evaluated\<close>

lemma req_late: "getRequiredServicesForCase caseLate = [Cardiology]"
  by (simp add: getRequiredServicesForCase_def caseText_def regexTest_def matchHere_def
      isWordChar_def isSpaceChar_def toLowerCase_def lowerChar_def Set_add_def caseLate_def
      exampleCase_def)

lemma req_early: "getRequiredServicesForCase caseEarly = [Orthopedics]"
  by (simp add: getRequiredServicesForCase_def caseText_def regexTest_def matchHere_def
      isWordChar_def isSpaceChar_def toLowerCase_def lowerChar_def Set_add_def caseEarly_def
      exampleCase_def)

lemma req_other: "getRequiredServicesForCase caseOther = []"
  by (simp add: getRequiredServicesForCase_def caseText_def regexTest_def matchHere_def
      isWordChar_def isSpaceChar_def toLowerCase_def lowerChar_def Set_add_def caseOther_def
      exampleCase_def)

lemma example_case_fields:
  "placeName caseLate = ''Square''" "placeName caseEarly = ''Square''"
  "placeName caseOther = ''Station''"
  "severity caseLate = severe" "severity caseEarly = severe" "severity caseOther = critical"
  "numberOfPatients caseLate = 2" "numberOfPatients caseEarly = 1"
  "numberOfPatients caseOther = 1"
  "latitude caseLate = 0" "latitude caseEarly = 0" "latitude caseOther = 0"
  "longitude caseLate = 0" "longitude caseEarly = 0" "longitude caseOther = 0"
  by (simp_all add: caseLate_def caseEarly_def caseOther_def exampleCase_def)

lemma example_byPlace:
  "groupByPlace [caseLate, caseOther, caseEarly] =
     [(''Square'', [caseLate, caseEarly]), (''Station'', [caseOther])]"
  by (simp add: groupByPlace_def byPlaceAdd_def example_case_fields)

lemma example_groups:
  "buildPlaceGroups [caseLate, caseOther, caseEarly] = [groupSquare, groupStation]"
  unfolding buildPlaceGroups_def example_byPlace
  by (simp add: makePlaceGroup_def Let_def req_late req_early req_other Set_add_def
      Array_sort_def example_case_fields severityOrder_def groupSquare_def groupStation_def)

lemma example_order:
  "sortPlaceGroups [groupSquare, groupStation] = [groupStation, groupSquare]"
  by (simp add: sortPlaceGroups_def Array_sort_def comparePlaceGroups_def
      groupSquare_def groupStation_def example_case_fields severityOrder_def)

lemma example_ranking:
  "sortByDist 0 0 [exampleA, exampleB] = [exampleA, exampleB]"
  by (simp add: sortByDist_def Array_sort_def exampleA_def exampleB_def haversineKm_same
      haversineKm_antipode)

lemma example_group_fields:
  "lat groupStation = 0" "lng groupStation = 0" "totalVictims groupStation = 1"
  "requiredServices groupStation = []" "group_placeName groupStation = ''Station''"
  "lat groupSquare = 0" "lng groupSquare = 0" "totalVictims groupSquare = 3"
  "requiredServices groupSquare = [Cardiology, Orthopedics]"
  "group_placeName groupSquare = ''Square''"
  "name exampleA = ''A''" "name exampleB = ''B''"
  by (simp_all add: groupStation_def groupSquare_def exampleA_def exampleB_def)

lemma example_choice_station:
  "findNearestHospitalWithCapacityAndServices 0 0 [exampleA, exampleB] Map.empty 1 [] =
     Some exampleA"
  unfolding findNearestHospitalWithCapacityAndServices_def example_ranking
  by (simp add: availableAfterUse_def usedOf_def hasServices_def exampleA_def)

lemma example_choice_square:
  "findNearestHospitalWithCapacityAndServices 0 0 [exampleA, exampleB] [''A'' \<mapsto> 1] 3
     [Cardiology, Orthopedics] = Some exampleB"
  unfolding findNearestHospitalWithCapacityAndServices_def example_ranking
  by (simp add: availableAfterUse_def usedOf_def hasServices_def exampleA_def exampleB_def)

lemma example_step_station:
  "assignGroup [exampleA, exampleB] groupStation initialPassState =
     \<lparr> usedCapacity = [''A'' \<mapsto> 1], placeToHospital = [''Station'' \<mapsto> ''A''] \<rparr>"
  by (simp add: assignGroup_def example_group_fields initialPassState_def
      example_choice_station usedOf_def)

lemma example_step_square:
  "assignGroup [exampleA, exampleB] groupSquare
     \<lparr> usedCapacity = [''A'' \<mapsto> 1], placeToHospital = [''Station'' \<mapsto> ''A''] \<rparr> =
     \<lparr> usedCapacity = [''A'' \<mapsto> 1, ''B'' \<mapsto> 3],
       placeToHospital = [''Station'' \<mapsto> ''A'', ''Square'' \<mapsto> ''B''] \<rparr>"
  by (simp add: assignGroup_def example_group_fields example_choice_square usedOf_def)

lemma example_pass:
  "runPass [caseLate, caseOther, caseEarly] [exampleA, exampleB] =
     \<lparr> usedCapacity = [''A'' \<mapsto> 1, ''B'' \<mapsto> 3],
       placeToHospital = [''Station'' \<mapsto> ''A'', ''Square'' \<mapsto> ''B''] \<rparr>"
  by (simp add: runPass_def example_groups example_order example_step_station
      example_step_square)

lemma example_assignment:
  "map assignedHospital (assignCasesToHospitals [caseLate, caseOther, caseEarly]
      [exampleA, exampleB]) = [Some ''B'', Some ''A'', Some ''B'']"
  by (simp add: assignCasesToHospitals_def example_pass example_case_fields)

section \<open>Every case is assigned when a hospital exists\<close>

lemma findNearest_Some:
  assumes "hospitals \<noteq> []"
  shows "\<exists>h. findNearestHospitalWithCapacityAndServices la lo hospitals u n req = Some h"
proof -
  have "sort_key (\<lambda>h. haversineKm la lo (hospital_latitude h) (hospital_longitude h)) hospitals \<noteq> []"
    using assms by (metis set_sort set_empty)
  then show ?thesis
    unfolding findNearest_find Let_def by (simp add: tier_chain)
qed

lemma findNearest_None:
  "findNearestHospitalWithCapacityAndServices la lo [] u n req = None"
  by (simp add: findNearest_find)

lemma assignLoop_append:
  "assignLoop hs (xs @ ys) st = assignLoop hs ys (assignLoop hs xs st)"
  by (induction xs arbitrary: st) simp_all

lemma assignGroup_place_other:
  "p \<noteq> group_placeName g \<Longrightarrow> placeToHospital (assignGroup hs g st) p = placeToHospital st p"
  by (simp add: assignGroup_def Let_def split: option.splits)

lemma assignLoop_place_other:
  "p \<notin> group_placeName ` set gs \<Longrightarrow>
   placeToHospital (assignLoop hs gs st) p = placeToHospital st p"
  by (induction gs arbitrary: st) (simp_all add: assignGroup_place_other)

lemma assignGroup_place_assigned:
  assumes "hs \<noteq> []"
  shows "placeToHospital (assignGroup hs g st) (group_placeName g) \<noteq> None"
  using findNearest_Some [OF assms, of "lat g" "lng g" "usedCapacity st" "totalVictims g" "requiredServices g"]
  by (auto simp: assignGroup_def Let_def)

lemma assignGroup_place_keeps:
  "placeToHospital st p \<noteq> None \<Longrightarrow> placeToHospital (assignGroup hs g st) p \<noteq> None"
  by (simp add: assignGroup_def Let_def split: option.splits)

lemma assignLoop_place_keeps:
  "placeToHospital st p \<noteq> None \<Longrightarrow> placeToHospital (assignLoop hs gs st) p \<noteq> None"
proof (induction gs arbitrary: st)
  case Nil
  then show ?case by simp
next
  case (Cons g gs)
  from Cons.prems have "placeToHospital (assignGroup hs g st) p \<noteq> None"
    by (rule assignGroup_place_keeps)
  then show ?case by (simp add: Cons.IH)
qed

lemma assignLoop_place_assigned:
  assumes "hs \<noteq> []" and "p \<in> group_placeName ` set gs"
  shows "placeToHospital (assignLoop hs gs st) p \<noteq> None"
  using assms(2)
proof (induction gs arbitrary: st)
  case Nil
  then show ?case by simp
next
  case (Cons g gs)
  show ?case
  proof (cases "p = group_placeName g")
    case True
    then show ?thesis
      using assignGroup_place_assigned [OF assms(1), of g st]
      by (simp add: assignLoop_place_keeps)
  next
    case False
    with Cons.prems have "p \<in> group_placeName ` set gs" by auto
    then show ?thesis by (simp add: Cons.IH)
  qed
qed

text \<open>
  C2. After a pass over an empty hospital list every case has \<open>assignedHospital\<close> null;
  after a pass over a hospital list with at least one hospital no case has it null. The
  pass changes no other field of a case and keeps the list of cases as it is.
\<close>

theorem assigned_iff_hospitals_exist:
  "(hospitals = [] \<longrightarrow>
      (\<forall>c\<in>set (assignCasesToHospitals cases hospitals). assignedHospital c = None)) \<and>
   (hospitals \<noteq> [] \<longrightarrow>
      (\<forall>c\<in>set (assignCasesToHospitals cases hospitals). assignedHospital c \<noteq> None)) \<and>
   map (\<lambda>c. c\<lparr>assignedHospital := None\<rparr>) (assignCasesToHospitals cases hospitals) =
     map (\<lambda>c. c\<lparr>assignedHospital := None\<rparr>) cases"
proof -
  have a: "assignedHospital c = None"
    if "hospitals = []" "c \<in> set (assignCasesToHospitals cases hospitals)" for c
    using that by (auto simp: assignCasesToHospitals_def)
  have b: "assignedHospital c \<noteq> None"
    if ne: "hospitals \<noteq> []" and c: "c \<in> set (assignCasesToHospitals cases hospitals)" for c
  proof -
    from c ne obtain c0 where c0: "c0 \<in> set cases"
      and eq: "c = c0\<lparr>assignedHospital := placeToHospital (runPass cases hospitals) (placeName c0)\<rparr>"
      by (auto simp: assignCasesToHospitals_def Let_def)
    have "placeName c0 \<in> group_placeName ` set (sortPlaceGroups (buildPlaceGroups cases))"
      using c0 by (simp add: set_sortPlaceGroups buildPlaceGroups_places)
    then have "placeToHospital (runPass cases hospitals) (placeName c0) \<noteq> None"
      unfolding runPass_def by (rule assignLoop_place_assigned [OF ne])
    then show ?thesis by (simp add: eq)
  qed
  have c: "map (\<lambda>c. c\<lparr>assignedHospital := None\<rparr>) (assignCasesToHospitals cases hospitals) =
     map (\<lambda>c. c\<lparr>assignedHospital := None\<rparr>) cases"
    by (simp add: assignCasesToHospitals_def Let_def)
  from a b c show ?thesis by blast
qed

theorem assigned_iff_hospitals_exist_witness:
  "list_all (\<lambda>c. assignedHospital c = None)
     (assignCasesToHospitals [caseLate, caseOther, caseEarly] []) \<and>
   [exampleA, exampleB] \<noteq> [] \<and>
   list_all (\<lambda>c. assignedHospital c \<noteq> None)
     (assignCasesToHospitals [caseLate, caseOther, caseEarly] [exampleA, exampleB]) \<and>
   map assignedHospital
     (assignCasesToHospitals [caseLate, caseOther, caseEarly] [exampleA, exampleB]) =
     [Some ''B'', Some ''A'', Some ''B'']"
proof -
  from assigned_iff_hospitals_exist [of "[]" "[caseLate, caseOther, caseEarly]"]
  have a: "list_all (\<lambda>c. assignedHospital c = None)
     (assignCasesToHospitals [caseLate, caseOther, caseEarly] [])"
    unfolding list_all_iff by blast
  have ne: "[exampleA, exampleB] \<noteq> []" by simp
  from assigned_iff_hospitals_exist [of "[exampleA, exampleB]" "[caseLate, caseOther, caseEarly]"] ne
  have b: "list_all (\<lambda>c. assignedHospital c \<noteq> None)
     (assignCasesToHospitals [caseLate, caseOther, caseEarly] [exampleA, exampleB])"
    unfolding list_all_iff by blast
  from a ne b example_assignment show ?thesis by blast
qed

section \<open>The capacity ledger\<close>

lemma foldl_victims_nonneg:
  "0 \<le> s \<Longrightarrow> \<forall>c\<in>set l. 0 \<le> numberOfPatients c \<Longrightarrow>
   0 \<le> foldl (\<lambda>s c. s + numberOfPatients c) s l"
  by (induction l arbitrary: s) simp_all

lemma totalVictims_nonneg:
  assumes "g \<in> set (buildPlaceGroups cases)" and "\<forall>c\<in>set cases. 0 \<le> numberOfPatients c"
  shows "0 \<le> totalVictims g"
proof -
  from assms(1) obtain e where e: "e \<in> set (groupByPlace cases)" and g: "g = makePlaceGroup e"
    by (auto simp: buildPlaceGroups_def)
  obtain p l where pl: "e = (p, l)" by (cases e)
  from groupByPlace_entry(1) [of p l cases] e pl have "set l \<subseteq> set cases" by auto
  with assms(2) have "\<forall>c\<in>set l. 0 \<le> numberOfPatients c" by blast
  then show ?thesis
    by (simp add: g pl makePlaceGroup_fields foldl_victims_nonneg)
qed

lemma usedOf_assignGroup:
  "usedOf (usedCapacity (assignGroup hs g st)) n =
     usedOf (usedCapacity st) n +
     (if map_option name (findNearestHospitalWithCapacityAndServices (lat g) (lng g) hs
           (usedCapacity st) (totalVictims g) (requiredServices g)) = Some n
      then totalVictims g else 0)"
  by (auto simp: assignGroup_def Let_def usedOf_def split: option.splits)

lemma place_assignGroup:
  "placeToHospital (assignGroup hs g st) (group_placeName g) =
     (case map_option name (findNearestHospitalWithCapacityAndServices (lat g) (lng g) hs
           (usedCapacity st) (totalVictims g) (requiredServices g)) of
        None \<Rightarrow> placeToHospital st (group_placeName g)
      | Some x \<Rightarrow> Some x)"
  by (auto simp: assignGroup_def Let_def split: option.splits)

lemma usedOf_assignGroup_mono:
  "0 \<le> totalVictims g \<Longrightarrow>
   usedOf (usedCapacity st) n \<le> usedOf (usedCapacity (assignGroup hs g st)) n"
  by (simp add: usedOf_assignGroup)

lemma usedOf_assignLoop_mono:
  "\<forall>g\<in>set gs. 0 \<le> totalVictims g \<Longrightarrow>
   usedOf (usedCapacity st) n \<le> usedOf (usedCapacity (assignLoop hs gs st)) n"
proof (induction gs arbitrary: st)
  case Nil
  then show ?case by simp
next
  case (Cons g gs)
  have "usedOf (usedCapacity st) n \<le> usedOf (usedCapacity (assignGroup hs g st)) n"
    using Cons.prems by (simp add: usedOf_assignGroup_mono)
  also have "\<dots> \<le> usedOf (usedCapacity (assignLoop hs gs (assignGroup hs g st))) n"
    using Cons.prems by (intro Cons.IH) simp
  finally show ?case by simp
qed

lemma usedOf_assignLoop_sum:
  assumes "distinct (map group_placeName gs)"
      and "\<forall>g\<in>set gs. placeToHospital st (group_placeName g) = None"
  shows "usedOf (usedCapacity (assignLoop hs gs st)) n =
           usedOf (usedCapacity st) n +
           (\<Sum>g\<leftarrow>gs. if placeToHospital (assignLoop hs gs st) (group_placeName g) = Some n
                    then totalVictims g else 0)"
  using assms
proof (induction gs arbitrary: st)
  case Nil
  then show ?case by simp
next
  case (Cons g gs)
  let ?st = "assignGroup hs g st"
  have notin: "group_placeName g \<notin> group_placeName ` set gs"
    using Cons.prems(1) by auto
  have fresh: "\<forall>g'\<in>set gs. placeToHospital ?st (group_placeName g') = None"
  proof
    fix g' assume g': "g' \<in> set gs"
    with notin have "group_placeName g' \<noteq> group_placeName g" by (metis imageI)
    then have "placeToHospital ?st (group_placeName g') = placeToHospital st (group_placeName g')"
      by (rule assignGroup_place_other)
    with Cons.prems(2) g' show "placeToHospital ?st (group_placeName g') = None" by simp
  qed
  have ih: "usedOf (usedCapacity (assignLoop hs gs ?st)) n =
           usedOf (usedCapacity ?st) n +
           (\<Sum>g'\<leftarrow>gs. if placeToHospital (assignLoop hs gs ?st) (group_placeName g') = Some n
                    then totalVictims g' else 0)"
    using Cons.prems(1) fresh by (intro Cons.IH) simp_all
  have here: "placeToHospital (assignLoop hs gs ?st) (group_placeName g) =
              placeToHospital ?st (group_placeName g)"
    by (rule assignLoop_place_other [OF notin])
  have st0: "placeToHospital st (group_placeName g) = None"
    using Cons.prems(2) by simp
  have step: "usedOf (usedCapacity ?st) n =
              usedOf (usedCapacity st) n +
              (if placeToHospital ?st (group_placeName g) = Some n then totalVictims g else 0)"
    unfolding usedOf_assignGroup place_assignGroup st0
    by (simp split: option.splits)
  show ?case
    by (simp add: ih here step)
qed

text \<open>
  C4. Let no case have a negative victim count, let \<open>gs\<close> be the groups in processing
  order and \<open>ledger i\<close> the capacity ledger after the first \<open>i\<close> of them (a hospital name
  without an entry counts as 0). The ledger starts empty; every ledger value is at least 0
  at every step; no ledger value decreases from one step to a later one; and at the end of
  the pass the value of every hospital name is the sum of the victim counts of exactly
  the groups whose place the pass assigned to that name.
\<close>

theorem ledger_invariants:
  assumes "\<forall>c\<in>set cases. 0 \<le> numberOfPatients c"
  shows "let gs = sortPlaceGroups (buildPlaceGroups cases);
             ledger = (\<lambda>i. usedCapacity (assignLoop hospitals (take i gs) initialPassState));
             final = runPass cases hospitals
         in ledger 0 = Map.empty \<and>
            ledger (length gs) = usedCapacity final \<and>
            (\<forall>i n. 0 \<le> usedOf (ledger i) n) \<and>
            (\<forall>i j n. i \<le> j \<longrightarrow> usedOf (ledger i) n \<le> usedOf (ledger j) n) \<and>
            (\<forall>n. usedOf (usedCapacity final) n =
                   (\<Sum>g\<leftarrow>gs. if placeToHospital final (group_placeName g) = Some n
                            then totalVictims g else 0))"
proof -
  let ?gs = "sortPlaceGroups (buildPlaceGroups cases)"
  let ?ledger = "\<lambda>i. usedCapacity (assignLoop hospitals (take i ?gs) initialPassState)"
  have nn: "\<forall>g\<in>set ?gs. 0 \<le> totalVictims g"
    using totalVictims_nonneg [OF _ assms] by (simp add: set_sortPlaceGroups)
  have nn_take: "\<forall>g\<in>set (take i ?gs). 0 \<le> totalVictims g" for i
    using nn by (meson in_set_takeD)
  have init: "usedOf (usedCapacity initialPassState) n = 0" for n
    by (simp add: initialPassState_def usedOf_def)
  have a: "?ledger 0 = Map.empty"
    by (simp add: initialPassState_def)
  have b: "?ledger (length ?gs) = usedCapacity (runPass cases hospitals)"
    by (simp add: runPass_def)
  have c: "0 \<le> usedOf (?ledger i) n" for i n
  proof -
    have "usedOf (usedCapacity initialPassState) n \<le> usedOf (?ledger i) n"
      by (rule usedOf_assignLoop_mono) (rule nn_take)
    then show ?thesis by (simp add: init)
  qed
  have d: "usedOf (?ledger i) n \<le> usedOf (?ledger j) n" if "i \<le> j" for i j n
  proof -
    from that have split: "take j ?gs = take i ?gs @ drop i (take j ?gs)"
      by (metis append_take_drop_id min.absorb_iff1 take_take)
    have "\<forall>g\<in>set (drop i (take j ?gs)). 0 \<le> totalVictims g"
      using nn_take [of j] by (meson in_set_dropD)
    then have "usedOf (?ledger i) n \<le>
          usedOf (usedCapacity (assignLoop hospitals (drop i (take j ?gs))
            (assignLoop hospitals (take i ?gs) initialPassState))) n"
      by (rule usedOf_assignLoop_mono)
    then show ?thesis
      by (metis split assignLoop_append)
  qed
  have dist: "distinct (map group_placeName ?gs)"
    by (simp add: distinct_names_sortPlaceGroups buildPlaceGroups_distinct)
  have e: "usedOf (usedCapacity (runPass cases hospitals)) n =
            (\<Sum>g\<leftarrow>?gs. if placeToHospital (runPass cases hospitals) (group_placeName g) = Some n
                       then totalVictims g else 0)" for n
    unfolding runPass_def
    using usedOf_assignLoop_sum [where gs="?gs" and st=initialPassState and hs=hospitals and n=n,
        OF dist]
    by (simp add: init) (simp add: initialPassState_def)
  show ?thesis
    unfolding Let_def using a b c d e by blast
qed

theorem ledger_invariants_witness:
  "list_all (\<lambda>c. 0 \<le> numberOfPatients c) [caseLate, caseOther, caseEarly] \<and>
   usedOf (usedCapacity (runPass [caseLate, caseOther, caseEarly] [exampleA, exampleB])) ''A'' = 1 \<and>
   usedOf (usedCapacity (runPass [caseLate, caseOther, caseEarly] [exampleA, exampleB])) ''B'' = 3 \<and>
   (\<Sum>g\<leftarrow>[groupStation, groupSquare].
      if placeToHospital (runPass [caseLate, caseOther, caseEarly] [exampleA, exampleB])
           (group_placeName g) = Some ''B''
      then totalVictims g else 0) = 3"
proof -
  have h: "\<forall>c\<in>set [caseLate, caseOther, caseEarly]. 0 \<le> numberOfPatients c"
    by (simp add: example_case_fields)
  from ledger_invariants [OF h, of "[exampleA, exampleB]"]
  have "usedOf (usedCapacity (runPass [caseLate, caseOther, caseEarly] [exampleA, exampleB])) ''B'' =
        (\<Sum>g\<leftarrow>[groupStation, groupSquare].
           if placeToHospital (runPass [caseLate, caseOther, caseEarly] [exampleA, exampleB])
                (group_placeName g) = Some ''B''
           then totalVictims g else 0)"
    unfolding Let_def example_groups example_order by blast
  moreover have
    "usedOf (usedCapacity (runPass [caseLate, caseOther, caseEarly] [exampleA, exampleB])) ''A'' = 1"
    "usedOf (usedCapacity (runPass [caseLate, caseOther, caseEarly] [exampleA, exampleB])) ''B'' = 3"
    by (simp_all add: example_pass usedOf_def)
  ultimately show ?thesis
    using h by (simp add: list_all_iff)
qed

section \<open>Determinism and freshness of the pass\<close>

lemma clearAssigned_fields [simp]:
  "placeName (clearAssigned c) = placeName c"
  "severity (clearAssigned c) = severity c"
  "numberOfPatients (clearAssigned c) = numberOfPatients c"
  "latitude (clearAssigned c) = latitude c"
  "longitude (clearAssigned c) = longitude c"
  by (simp_all add: clearAssigned_def)

lemma getRequiredServicesForCase_clearAssigned [simp]:
  "getRequiredServicesForCase (clearAssigned c) = getRequiredServicesForCase c"
  by (simp add: getRequiredServicesForCase_def caseText_def clearAssigned_def)

lemma Map_set_map:
  "Map_set k (f v) (map (\<lambda>(p, l). (p, f l)) m) = map (\<lambda>(p, l). (p, f l)) (Map_set k v m)"
  by (induction m) auto

lemma map_of_map_snd:
  "map_of (map (\<lambda>(p, l). (p, f l)) m) k = map_option f (map_of m k)"
  by (induction m) auto

lemma Map_set_map_snoc:
  "Map_set k (map f l @ [f c]) (map (\<lambda>(p, l). (p, map f l)) m) =
   map (\<lambda>(p, l). (p, map f l)) (Map_set k (l @ [c]) m)"
  "Map_set k [f c] (map (\<lambda>(p, l). (p, map f l)) m) =
   map (\<lambda>(p, l). (p, map f l)) (Map_set k [c] m)"
  using Map_set_map [of k "map f" "l @ [c]" m] Map_set_map [of k "map f" "[c]" m]
  by simp_all

lemma byPlaceAdd_clearAssigned:
  "byPlaceAdd (clearAssigned c) (map (\<lambda>(p, l). (p, map clearAssigned l)) m) =
   map (\<lambda>(p, l). (p, map clearAssigned l)) (byPlaceAdd c m)"
  by (simp add: byPlaceAdd_def Let_def map_of_map_snd Map_set_map_snoc split: option.splits)

lemma groupByPlace_clearAssigned:
  "groupByPlace (map clearAssigned cs) =
   map (\<lambda>(p, l). (p, map clearAssigned l)) (groupByPlace cs)"
proof (induction cs rule: rev_induct)
  case Nil
  then show ?case by (simp add: groupByPlace_def)
next
  case (snoc c cs)
  then show ?case
    by (simp add: groupByPlace_snoc byPlaceAdd_clearAssigned)
qed

lemma foldl_map_field:
  assumes "\<And>c. f (g c) = f c"
  shows "foldl (\<lambda>s c. s + f c) s0 (map g l) = foldl (\<lambda>s c. s + f c) s0 l"
  by (induction l arbitrary: s0) (simp_all add: assms)

lemma fold_services_clearAssigned:
  "fold (\<lambda>c acc. fold Set_add (getRequiredServicesForCase c) acc) (map clearAssigned l) acc0 =
   fold (\<lambda>c acc. fold Set_add (getRequiredServicesForCase c) acc) l acc0"
  by (induction l arbitrary: acc0) simp_all

lemma makePlaceGroup_clearAssigned:
  "makePlaceGroup (p, map clearAssigned l) = clearGroup (makePlaceGroup (p, l))"
proof -
  have srt: "Array_sort (\<lambda>a b. severityOrder (severity a) - severityOrder (severity b))
               (map clearAssigned l) =
             map clearAssigned
               (Array_sort (\<lambda>a b. severityOrder (severity a) - severityOrder (severity b)) l)"
    by (rule Array_sort_map) simp
  show ?thesis
    by (simp add: makePlaceGroup_def Let_def clearGroup_def srt fold_services_clearAssigned
        foldl_map_field)
qed

lemma buildPlaceGroups_clearAssigned:
  "buildPlaceGroups (map clearAssigned cs) = map clearGroup (buildPlaceGroups cs)"
  by (simp add: buildPlaceGroups_def groupByPlace_clearAssigned makePlaceGroup_clearAssigned
      comp_def split_def)

lemma clearGroup_fields [simp]:
  "group_placeName (clearGroup g) = group_placeName g"
  "lat (clearGroup g) = lat g" "lng (clearGroup g) = lng g"
  "totalVictims (clearGroup g) = totalVictims g"
  "requiredServices (clearGroup g) = requiredServices g"
  "map (\<lambda>c. severityOrder (severity c)) (caseList (clearGroup g)) =
   map (\<lambda>c. severityOrder (severity c)) (caseList g)"
  by (simp_all add: clearGroup_def comp_def)

lemma comparePlaceGroups_clearGroup:
  "comparePlaceGroups (clearGroup a) (clearGroup b) = comparePlaceGroups a b"
  unfolding comparePlaceGroups_def clearGroup_fields ..

lemma sortPlaceGroups_clearGroup:
  "sortPlaceGroups (map clearGroup gs) = map clearGroup (sortPlaceGroups gs)"
  unfolding sortPlaceGroups_def
  by (rule Array_sort_map) (rule comparePlaceGroups_clearGroup)

lemma assignGroup_clearGroup:
  "assignGroup hs (clearGroup g) st = assignGroup hs g st"
  unfolding assignGroup_def clearGroup_fields ..

lemma assignLoop_clearGroup:
  "assignLoop hs (map clearGroup gs) st = assignLoop hs gs st"
  by (induction gs arbitrary: st) (simp_all add: assignGroup_clearGroup)

lemma runPass_clearAssigned:
  "runPass (map clearAssigned cs) hs = runPass cs hs"
  by (simp add: runPass_def buildPlaceGroups_clearAssigned sortPlaceGroups_clearGroup
      assignLoop_clearGroup)

lemma assign_clearAssigned:
  "assignCasesToHospitals (map clearAssigned cs) hs = assignCasesToHospitals cs hs"
  by (simp add: assignCasesToHospitals_def runPass_clearAssigned Let_def comp_def)
    (simp add: clearAssigned_def)

lemma clearAssigned_assign:
  "map clearAssigned (assignCasesToHospitals cs hs) = map clearAssigned cs"
  by (simp add: assignCasesToHospitals_def Let_def comp_def clearAssigned_def)

text \<open>
  C9. The pass is a function of the case list and the hospital list, and of the cases it
  reads everything but \<open>assignedHospital\<close>: two runs on case lists that agree up to what
  an earlier pass left in that field give the same result, so a run on the same inputs
  gives the same mapping, and running the pass again on its own output changes nothing.
  Each run starts its loop from an empty capacity ledger and an empty place map of its
  own.
\<close>

theorem pass_deterministic_and_stateless:
  assumes "map (\<lambda>c. c\<lparr>assignedHospital := None\<rparr>) cases =
           map (\<lambda>c. c\<lparr>assignedHospital := None\<rparr>) cases'"
  shows "assignCasesToHospitals cases hospitals = assignCasesToHospitals cases' hospitals \<and>
         assignCasesToHospitals (assignCasesToHospitals cases hospitals) hospitals =
           assignCasesToHospitals cases hospitals \<and>
         runPass cases hospitals =
           assignLoop hospitals (sortPlaceGroups (buildPlaceGroups cases))
             \<lparr> usedCapacity = Map.empty, placeToHospital = Map.empty \<rparr>"
proof -
  from assms have eq: "map clearAssigned cases = map clearAssigned cases'"
    by (simp add: clearAssigned_def [abs_def])
  have "assignCasesToHospitals cases hospitals =
        assignCasesToHospitals (map clearAssigned cases) hospitals"
    by (simp add: assign_clearAssigned)
  also have "\<dots> = assignCasesToHospitals (map clearAssigned cases') hospitals"
    by (simp add: eq)
  also have "\<dots> = assignCasesToHospitals cases' hospitals"
    by (simp add: assign_clearAssigned)
  finally have a: "assignCasesToHospitals cases hospitals = assignCasesToHospitals cases' hospitals" .
  have "assignCasesToHospitals (assignCasesToHospitals cases hospitals) hospitals =
        assignCasesToHospitals (map clearAssigned (assignCasesToHospitals cases hospitals)) hospitals"
    by (simp add: assign_clearAssigned)
  also have "\<dots> = assignCasesToHospitals (map clearAssigned cases) hospitals"
    by (simp add: clearAssigned_assign)
  also have "\<dots> = assignCasesToHospitals cases hospitals"
    by (simp add: assign_clearAssigned)
  finally have b: "assignCasesToHospitals (assignCasesToHospitals cases hospitals) hospitals =
           assignCasesToHospitals cases hospitals" .
  show ?thesis
    using a b by (simp add: runPass_def initialPassState_def)
qed

theorem pass_deterministic_and_stateless_witness:
  "map (\<lambda>c. c\<lparr>assignedHospital := None\<rparr>) [caseLate, caseOther, caseEarly] =
   map (\<lambda>c. c\<lparr>assignedHospital := None\<rparr>)
     [caseLate\<lparr>assignedHospital := Some ''A''\<rparr>, caseOther, caseEarly\<lparr>assignedHospital := Some ''X''\<rparr>] \<and>
   assignCasesToHospitals [caseLate, caseOther, caseEarly] [exampleA, exampleB] =
   assignCasesToHospitals
     [caseLate\<lparr>assignedHospital := Some ''A''\<rparr>, caseOther, caseEarly\<lparr>assignedHospital := Some ''X''\<rparr>]
     [exampleA, exampleB] \<and>
   map assignedHospital (assignCasesToHospitals
     [caseLate\<lparr>assignedHospital := Some ''A''\<rparr>, caseOther, caseEarly\<lparr>assignedHospital := Some ''X''\<rparr>]
     [exampleA, exampleB]) = [Some ''B'', Some ''A'', Some ''B'']"
proof -
  have h: "map (\<lambda>c. c\<lparr>assignedHospital := None\<rparr>) [caseLate, caseOther, caseEarly] =
   map (\<lambda>c. c\<lparr>assignedHospital := None\<rparr>)
     [caseLate\<lparr>assignedHospital := Some ''A''\<rparr>, caseOther, caseEarly\<lparr>assignedHospital := Some ''X''\<rparr>]"
    by simp
  from pass_deterministic_and_stateless [OF h, of "[exampleA, exampleB]"]
  have "assignCasesToHospitals [caseLate, caseOther, caseEarly] [exampleA, exampleB] =
   assignCasesToHospitals
     [caseLate\<lparr>assignedHospital := Some ''A''\<rparr>, caseOther, caseEarly\<lparr>assignedHospital := Some ''X''\<rparr>]
     [exampleA, exampleB]"
    by blast
  with h example_assignment show ?thesis by simp
qed

end
